theory Spec2Isabelle
  imports Complex_Main
begin

section \<open>Values, failures and the free store\<close>

text \<open>
  The C++ type \<^verbatim>\<open>double\<close> is read as a real number: the development is about the
  structure of \<^verbatim>\<open>lbfgs.hpp\<close> and the algebra of \<^verbatim>\<open>lbfgs_test.cpp\<close>, not about rounding.
  A member \<^verbatim>\<open>x_\<close> of a C++ class is the record field \<open>x_mem\<close>.
\<close>

type_synonym double = real

datatype error =
    CheckFailed
  | LengthError
  | SignedOverflow
  | OutOfRange
  | DivisionByZero
  | InvalidPointer
  | NullCall
  | DimensionMismatch

text \<open>
  \<open>CheckFailed\<close> is the exception of the macro \<^verbatim>\<open>check\<close>, \<open>LengthError\<close> is
  \<^verbatim>\<open>std::length_error\<close>, \<open>DimensionMismatch\<close> is the optimizer's dimension error.
  The others stand for undefined behaviour of C++: \<^verbatim>\<open>int\<close> arithmetic that leaves the
  range of \<^verbatim>\<open>int\<close>, \<^verbatim>\<open>operator[]\<close> past the end, a division whose result is no
  real number, a dead or null object pointer, a call through a null function pointer.
\<close>

fun bind_err :: "error + 'a \<Rightarrow> ('a \<Rightarrow> error + 'b) \<Rightarrow> error + 'b" where
  "bind_err (Inl e) k = Inl e"
| "bind_err (Inr a) k = k a"

text \<open>
  The macro \<^verbatim>\<open>check(condition, message)\<close> comes from \<^verbatim>\<open>macros.hpp\<close>, which is not among the
  sources. It is taken with a parameter \<open>checks_on\<close>: a build with the checks compiled in
  throws when the condition fails, a build without them does nothing.
\<close>

definition check :: "bool \<Rightarrow> bool \<Rightarrow> error + unit" where
  "check checks_on cond = (if checks_on \<and> \<not> cond then Inl CheckFailed else Inr ())"

text \<open>
  Objects of class \<^verbatim>\<open>BasicLargeVector\<close> live in the free store. An address is an index
  into the store, a cell holds the member \<^verbatim>\<open>v_\<close> of a live object or \<open>None\<close> for a
  destroyed one, and \<^verbatim>\<open>new\<close> takes the next index.
\<close>

type_synonym addr = nat
type_synonym heap = "double list option list"

definition lookup :: "heap \<Rightarrow> addr \<Rightarrow> double list option" where
  "lookup h a = (if a < length h then h ! a else None)"

definition alloc :: "heap \<Rightarrow> double list \<Rightarrow> addr \<times> heap" where
  "alloc h v = (length h, h @ [Some v])"

definition store :: "heap \<Rightarrow> addr \<Rightarrow> double list \<Rightarrow> heap" where
  "store h a v = h[a := Some v]"

definition destroy :: "heap \<Rightarrow> addr \<Rightarrow> heap" where
  "destroy h a = h[a := None]"

section \<open>BasicLargeVector and BasicLargeVectorFactory\<close>

text \<open>
  \<^verbatim>\<open>BasicLargeVector(int n) : v_(n, 0) {}\<close>. The \<^verbatim>\<open>int\<close> is converted to the unsigned
  size of \<^verbatim>\<open>std::vector\<close>; a negative one becomes a size beyond \<^verbatim>\<open>max_size()\<close>, which
  the vector refuses with \<^verbatim>\<open>std::length_error\<close>.
\<close>

definition BasicLargeVector :: "int \<Rightarrow> error + double list" where
  "BasicLargeVector n = (if n < 0 then Inl LengthError else Inr (replicate (nat n) 0))"

record BasicLargeVectorFactory =
  n_mem :: int

text \<open>\<^verbatim>\<open>BasicLargeVectorFactory(int n) : n_(n) { check(n_ >= 0, ""); }\<close>\<close>

definition BasicLargeVectorFactory_new :: "bool \<Rightarrow> int \<Rightarrow> error + BasicLargeVectorFactory" where
  "BasicLargeVectorFactory_new checks_on n =
     bind_err (check checks_on (0 \<le> n)) (\<lambda>_. Inr \<lparr>n_mem = n\<rparr>)"

text \<open>\<^verbatim>\<open>BasicLargeVector* giveMeOne() { return new BasicLargeVector(n_); }\<close>\<close>

definition giveMeOne :: "BasicLargeVectorFactory \<Rightarrow> heap \<Rightarrow> error + (addr \<times> heap)" where
  "giveMeOne fac h = bind_err (BasicLargeVector (n_mem fac)) (\<lambda>v. Inr (alloc h v))"

definition dereference :: "heap \<Rightarrow> addr \<Rightarrow> error + double list" where
  "dereference h a = (case lookup h a of None \<Rightarrow> Inl InvalidPointer | Some v \<Rightarrow> Inr v)"

text \<open>\<^verbatim>\<open>p->contents() = v\<close>: the object behind \<open>p\<close> takes a copy of \<open>v\<close>, whatever its size was.\<close>

definition assign_contents :: "heap \<Rightarrow> addr \<Rightarrow> double list \<Rightarrow> error + heap" where
  "assign_contents h a v = bind_err (dereference h a) (\<lambda>_. Inr (store h a v))"

section \<open>BasicLBFGSFunc\<close>

text \<open>
  The members \<^verbatim>\<open>f_\<close> and \<^verbatim>\<open>grad_\<close> are references to function objects of the caller
  (\<^verbatim>\<open>RealFunctionMultiDim\<close>, \<^verbatim>\<open>RealFunctionMultiToMulti\<close> of \<^verbatim>\<open>function.hpp\<close>, which is not
  among the sources). They are parameters of the methods: an objective maps a point to
  a value or throws; a gradient gets the point and the output vector as it is handed
  over, and returns what it leaves in the output vector, or throws.
\<close>

type_synonym objective = "double list \<Rightarrow> error + double"
type_synonym gradient = "double list \<Rightarrow> double list \<Rightarrow> error + double list"

text \<open>
  The calls a \<^verbatim>\<open>BasicLBFGSFunc\<close> makes to the two external functions are recorded in a
  log, in the order they happen, each with the point it was made at.
\<close>

datatype call = EvalF "double list" | EvalGrad "double list"

record BasicLBFGSFunc =
  x_mem :: "double list"

text \<open>The constructor leaves \<^verbatim>\<open>x_\<close> default-constructed: the empty vector.\<close>

definition BasicLBFGSFunc_new :: BasicLBFGSFunc where
  "BasicLBFGSFunc_new = \<lparr>x_mem = []\<rparr>"

text \<open>\<^verbatim>\<open>void set(const BasicLargeVector& x) { x_ = x.contents(); }\<close>\<close>

definition BasicLBFGSFunc_set :: "heap \<Rightarrow> addr \<Rightarrow> BasicLBFGSFunc \<Rightarrow> error + BasicLBFGSFunc" where
  "BasicLBFGSFunc_set h x F =
     (case lookup h x of
        None \<Rightarrow> Inl InvalidPointer
      | Some v \<Rightarrow> Inr (F\<lparr>x_mem := v\<rparr>))"

text \<open>\<^verbatim>\<open>double value() { return f_.evaluate(x_); }\<close>\<close>

definition BasicLBFGSFunc_value ::
  "objective \<Rightarrow> BasicLBFGSFunc \<Rightarrow> call list \<Rightarrow> (error + double) \<times> call list" where
  "BasicLBFGSFunc_value f F tr = (f (x_mem F), tr @ [EvalF (x_mem F)])"

text \<open>
  \<^verbatim>\<open>void derivative(BasicLargeVector *res) { grad_.evaluate(x_, &(res->contents())); }\<close>
  The result is what the caller finds in \<^verbatim>\<open>*res\<close> (or the exception), the store and
  the log afterwards.
\<close>

definition BasicLBFGSFunc_derivative ::
  "gradient \<Rightarrow> BasicLBFGSFunc \<Rightarrow> heap \<Rightarrow> addr \<Rightarrow> call list
     \<Rightarrow> (error + double list) \<times> heap \<times> call list" where
  "BasicLBFGSFunc_derivative grad F h res tr =
     (case lookup h res of
        None \<Rightarrow> (Inl InvalidPointer, h, tr)
      | Some r \<Rightarrow>
          (case grad (x_mem F) r of
             Inl e \<Rightarrow> (Inl e, h, tr @ [EvalGrad (x_mem F)])
           | Inr r' \<Rightarrow> (Inr r', store h res r', tr @ [EvalGrad (x_mem F)])))"

text \<open>
  A caller that holds a bound \<^verbatim>\<open>BasicLBFGSFunc\<close> and asks for values and derivatives in
  any order: \<open>serve\<close> answers a list of requests one after the other and returns the
  replies, the store and the log.
\<close>

datatype request = Value | Derivative addr

datatype reply = ValueIs "error + double" | DerivativeIs "error + double list"

fun serve ::
  "objective \<Rightarrow> gradient \<Rightarrow> BasicLBFGSFunc \<Rightarrow> request list \<Rightarrow> heap \<Rightarrow> call list
     \<Rightarrow> reply list \<times> heap \<times> call list" where
  "serve f grad F [] h tr = ([], h, tr)"
| "serve f grad F (Value # rs) h tr =
     (case BasicLBFGSFunc_value f F tr of
        (v, tr1) \<Rightarrow>
          (case serve f grad F rs h tr1 of
             (out, h', tr') \<Rightarrow> (ValueIs v # out, h', tr')))"
| "serve f grad F (Derivative res # rs) h tr =
     (case BasicLBFGSFunc_derivative grad F h res tr of
        (d, h1, tr1) \<Rightarrow>
          (case serve f grad F rs h1 tr1 of
             (out, h', tr') \<Rightarrow> (DerivativeIs d # out, h', tr')))"

fun call_of :: "double list \<Rightarrow> request \<Rightarrow> call" where
  "call_of x Value = EvalF x"
| "call_of x (Derivative res) = EvalGrad x"

fun buffer_live :: "heap \<Rightarrow> request \<Rightarrow> bool" where
  "buffer_live h Value = True"
| "buffer_live h (Derivative res) = (lookup h res \<noteq> None)"

section \<open>The optimizer engine behind the wrapper\<close>

text \<open>
  The class template \<^verbatim>\<open>LBFGS_General\<close> comes from \<^verbatim>\<open>lbfgs_general.hpp\<close>, which is not among
  the sources. Its start-up, its history buffer and its \<^verbatim>\<open>minimize\<close> are modelled from
  the specification. The wrapper takes the engine's \<^verbatim>\<open>minimize\<close> as a parameter (type
  \<open>engine\<close> below), so that what is proved of the wrapper alone holds of every engine.
\<close>

text \<open>Modelled from the spec: a HistoryBuffer entry \<open>(s_k, y_k, rho_k)\<close> of the missing
  \<^verbatim>\<open>lbfgs_general.hpp\<close> (section 3).\<close>

record entry =
  s_k :: "double list"
  y_k :: "double list"
  rho_k :: double

text \<open>Modelled from the spec: the OptimizerState of the missing \<^verbatim>\<open>lbfgs_general.hpp\<close>
  (section 3: current iterate, gradient, value, iteration counter, last accepted step
  length), with the history buffer and the memory depth the engine was built with.\<close>

record OptimizerState =
  x_cur :: "double list"
  g_cur :: "double list"
  f_cur :: double
  iteration :: nat
  step_length :: double
  history :: "entry list"
  memory_depth :: int

text \<open>Modelled from the spec: \<^verbatim>\<open>LBFGS_General::setStarting\<close> of the missing
  \<^verbatim>\<open>lbfgs_general.hpp\<close>. Section 4.5: the initial state goes to Iterating after the first
  gradient evaluation at the supplied starting point; a zero-dimensional or
  mismatched-dimension starting vector goes to DimensionError at once. The dimension of
  the run is that of the vectors the factory creates (section 4.1).\<close>

definition LBFGS_General_setStarting ::
  "BasicLargeVectorFactory \<Rightarrow> objective \<Rightarrow> gradient \<Rightarrow> BasicLBFGSFunc \<Rightarrow> double list \<Rightarrow> int
     \<Rightarrow> error + (OptimizerState \<times> BasicLBFGSFunc)" where
  "LBFGS_General_setStarting factory f grad F starting m =
     bind_err (BasicLargeVector (n_mem factory)) (\<lambda>created.
       if length starting = 0 \<or> length starting \<noteq> length created then Inl DimensionMismatch
       else
         let F' = F\<lparr>x_mem := starting\<rparr> in
         bind_err (f (x_mem F')) (\<lambda>v.
         bind_err (grad (x_mem F') created) (\<lambda>g.
           Inr (\<lparr>x_cur = starting, g_cur = g, f_cur = v, iteration = 0, step_length = 1,
                 history = [], memory_depth = m\<rparr>, F'))))"

text \<open>Modelled from the spec: the constructor of \<^verbatim>\<open>LBFGS_General\<close> of the missing
  \<^verbatim>\<open>lbfgs_general.hpp\<close>; it starts the engine at the supplied starting point (section 4.5).\<close>

definition LBFGS_General_new ::
  "BasicLargeVectorFactory \<Rightarrow> objective \<Rightarrow> gradient \<Rightarrow> BasicLBFGSFunc \<Rightarrow> double list \<Rightarrow> int
     \<Rightarrow> error + (OptimizerState \<times> BasicLBFGSFunc)" where
  "LBFGS_General_new factory f grad F starting m =
     LBFGS_General_setStarting factory f grad F starting m"

subsection \<open>The history buffer\<close>

text \<open>Modelled from the spec: one accepted step of the missing engine, the two iterates
  and the two gradients the insertion policy of section 4.3 works on.\<close>

record step =
  x_old :: "double list"
  x_new :: "double list"
  g_old :: "double list"
  g_new :: "double list"

text \<open>Modelled from the spec: the differences \<open>s = x_new - x_old\<close> and
  \<open>y = g_new - g_old\<close> of section 4.3, computed by the missing engine.\<close>

definition difference :: "double list \<Rightarrow> double list \<Rightarrow> double list" where
  "difference a b = map2 (-) a b"

text \<open>Modelled from the spec: \<^verbatim>\<open>dotProduct\<close> of a LargeVector (\<^verbatim>\<open>BasicLargeVector::dotProduct\<close>
  is declared in \<^verbatim>\<open>lbfgs.hpp\<close> and defined in a file that is not among the sources).
  Section 4.1: the Euclidean inner product, failing with DimensionMismatch when the
  dimensions differ.\<close>

definition dotProduct :: "double list \<Rightarrow> double list \<Rightarrow> error + double" where
  "dotProduct a b =
     (if length a = length b then Inr (sum_list (map2 (*) a b)) else Inl DimensionMismatch)"

text \<open>Modelled from the spec: insertion into the HistoryBuffer of the missing
  \<^verbatim>\<open>lbfgs_general.hpp\<close>. Sections 3 and 4.3: entries are kept in chronological order
  (oldest first here); inserting evicts the oldest entry if the buffer is at capacity
  \<open>m\<close>.\<close>

definition insert_entry :: "nat \<Rightarrow> entry \<Rightarrow> entry list \<Rightarrow> entry list" where
  "insert_entry m e h = (if length h < m then h @ [e] else tl h @ [e])"

text \<open>Modelled from the spec: the insertion policy of section 4.3 of the missing
  \<^verbatim>\<open>lbfgs_general.hpp\<close>. After each accepted step compute \<open>s\<close> and \<open>y\<close>; reject (do not
  insert) if \<open>s \<cdot> y \<le> \<epsilon>\<close> for the curvature threshold \<open>\<epsilon>\<close>; otherwise insert
  \<open>(s, y, 1 / (y \<cdot> s))\<close>.\<close>

definition update_history :: "double \<Rightarrow> nat \<Rightarrow> step \<Rightarrow> entry list \<Rightarrow> error + entry list" where
  "update_history eps_curvature m st h =
     (let s = difference (x_new st) (x_old st);
          y = difference (g_new st) (g_old st)
      in bind_err (dotProduct s y) (\<lambda>sy.
           if sy \<le> eps_curvature then Inr h
           else Inr (insert_entry m \<lparr>s_k = s, y_k = y, rho_k = 1 / sy\<rparr> h)))"

text \<open>Modelled from the spec: the history buffer over a run of the missing engine, one
  update per accepted step, in the order of the iterations (section 4.5, step 3).\<close>

fun run_history :: "double \<Rightarrow> nat \<Rightarrow> step list \<Rightarrow> entry list \<Rightarrow> error + entry list" where
  "run_history eps_curvature m [] h = Inr h"
| "run_history eps_curvature m (st # sts) h =
     bind_err (update_history eps_curvature m st h) (run_history eps_curvature m sts)"

text \<open>
  What the statements about the buffer compare it with: the entry a step contributes if
  its curvature passes the threshold, the entries of a run in the order of the steps,
  steps whose four vectors have the dimension of the run, and a curvature above the
  threshold.
\<close>

definition accepted_entry :: "double \<Rightarrow> step \<Rightarrow> entry option" where
  "accepted_entry eps_curvature st =
     (let s = difference (x_new st) (x_old st);
          y = difference (g_new st) (g_old st)
      in case dotProduct s y of
           Inl e \<Rightarrow> None
         | Inr sy \<Rightarrow> if sy \<le> eps_curvature then None
                     else Some \<lparr>s_k = s, y_k = y, rho_k = 1 / sy\<rparr>)"

definition accepted :: "double \<Rightarrow> step list \<Rightarrow> entry list" where
  "accepted eps_curvature sts = List.map_filter (accepted_entry eps_curvature) sts"

definition well_shaped :: "nat \<Rightarrow> step \<Rightarrow> bool" where
  "well_shaped n st \<longleftrightarrow>
     length (x_old st) = n \<and> length (x_new st) = n \<and> length (g_old st) = n \<and> length (g_new st) = n"

definition last_entries :: "nat \<Rightarrow> entry list \<Rightarrow> entry list" where
  "last_entries m es = drop (length es - m) es"

definition curvature_above :: "double \<Rightarrow> entry \<Rightarrow> bool" where
  "curvature_above eps_curvature e \<longleftrightarrow>
     (case dotProduct (s_k e) (y_k e) of Inl err \<Rightarrow> False | Inr sy \<Rightarrow> eps_curvature < sy)"

section \<open>The wrapper LBFGS\<close>

text \<open>
  The members of \<^verbatim>\<open>class LBFGS\<close>. \<^verbatim>\<open>s_\<close> is a pointer into the free store, \<^verbatim>\<open>lbfgs_\<close>
  owns the engine. The static member \<^verbatim>\<open>cb_\<close> is not part of an object: it is a field
  of the program state \<open>world\<close> below.
\<close>

record LBFGS =
  factory_mem :: BasicLargeVectorFactory
  f_mem :: BasicLBFGSFunc
  s_mem :: addr
  lbfgs_mem :: OptimizerState

text \<open>
  The constructor: \<^verbatim>\<open>factory_(n), f_(f, grad)\<close>, then
  \<^verbatim>\<open>s_ = factory_.giveMeOne(); s_->contents() = starting;\<close> and the engine is built from
  \<^verbatim>\<open>&factory_, &f_, *s_, m\<close>.
\<close>

definition LBFGS_new ::
  "bool \<Rightarrow> int \<Rightarrow> objective \<Rightarrow> gradient \<Rightarrow> double list \<Rightarrow> int \<Rightarrow> heap \<Rightarrow> error + (LBFGS \<times> heap)" where
  "LBFGS_new checks_on n f grad starting m h =
     bind_err (BasicLargeVectorFactory_new checks_on n) (\<lambda>factory.
     bind_err (giveMeOne factory h) (\<lambda>(s, h1).
     bind_err (assign_contents h1 s starting) (\<lambda>h2.
     bind_err (dereference h2 s) (\<lambda>start.
     bind_err (LBFGS_General_new factory f grad BasicLBFGSFunc_new start m) (\<lambda>(st, F).
       Inr (\<lparr>factory_mem = factory, f_mem = F, s_mem = s, lbfgs_mem = st\<rparr>, h2))))))"

text \<open>\<^verbatim>\<open>void setStarting(starting) { s_->contents() = starting; lbfgs_->setStarting(*s_); }\<close>\<close>

definition LBFGS_setStarting ::
  "objective \<Rightarrow> gradient \<Rightarrow> LBFGS \<Rightarrow> double list \<Rightarrow> heap \<Rightarrow> error + (LBFGS \<times> heap)" where
  "LBFGS_setStarting f grad L starting h =
     bind_err (assign_contents h (s_mem L) starting) (\<lambda>h1.
     bind_err (dereference h1 (s_mem L)) (\<lambda>start.
     bind_err (LBFGS_General_setStarting (factory_mem L) f grad (f_mem L) start
                 (memory_depth (lbfgs_mem L))) (\<lambda>(st, F).
       Inr (L\<lparr>f_mem := F, lbfgs_mem := st\<rparr>, h1))))"

text \<open>
  A progress callback of the caller is a function pointer: \<open>None\<close> is \<^verbatim>\<open>NULL\<close>, \<open>Some c\<close>
  points to the caller's function \<open>c\<close>. What such a function does is its own business;
  the program state records that it was invoked, and with which arguments.
\<close>

type_synonym callback = nat

record report =
  it :: int
  f_arg :: double
  gn_arg :: double
  v_arg :: "double list"

record world =
  heap_of :: heap
  cb_mem :: "callback option"
  invoked :: "(callback \<times> report) list"

text \<open>A call through a function pointer; through \<^verbatim>\<open>NULL\<close> it is undefined.\<close>

definition call_pointer :: "callback option \<Rightarrow> report \<Rightarrow> world \<Rightarrow> error + world" where
  "call_pointer p r w =
     (case p of
        None \<Rightarrow> Inl NullCall
      | Some c \<Rightarrow> Inr (w\<lparr>invoked := invoked w @ [(c, r)]\<rparr>))"

text \<open>\<^verbatim>\<open>static void myCallBack(it, f, gn, v) { if(cb_) cb_(it, f, gn, v.contents()); }\<close>\<close>

definition myCallBack :: "report \<Rightarrow> world \<Rightarrow> error + world" where
  "myCallBack r w = (if cb_mem w \<noteq> None then call_pointer (cb_mem w) r w else Inr w)"

text \<open>
  \<^verbatim>\<open>LBFGS_General::minimize\<close> is not among the sources: it is the parameter \<open>eng\<close> of
  \<open>LBFGS_minimize\<close> (\<open>LBFGS_General_minimize\<close> below is the engine of the specification). From the engine's state, the function binding, the contents of the
  vector it is handed and the three limits, a run makes its progress reports (each a
  call of the function pointer it was given, here always \<^verbatim>\<open>myCallBack\<close>), and either
  throws or returns a value and leaves a point in the vector it was handed.
\<close>

record engine_run =
  reports :: "report list"
  outcome :: "error + (double \<times> double list)"
  final_state :: OptimizerState
  final_func :: BasicLBFGSFunc

type_synonym engine =
  "OptimizerState \<Rightarrow> BasicLBFGSFunc \<Rightarrow> double list \<Rightarrow> double \<Rightarrow> double \<Rightarrow> int \<Rightarrow> engine_run"

fun run_callbacks :: "report list \<Rightarrow> world \<Rightarrow> error + world" where
  "run_callbacks [] w = Inr w"
| "run_callbacks (r # rs) w = bind_err (myCallBack r w) (run_callbacks rs)"

text \<open>
  \<^verbatim>\<open>cb_ = callback; const double val = lbfgs_->minimize(s_, epsilon, gNormTol, maxIter, myCallBack);\<close>
  \<^verbatim>\<open>(*res) = s_->contents(); return val;\<close>
  The argument \<open>res\<close> is what the caller's vector held before the call; the result
  carries what it holds afterwards.
\<close>

definition LBFGS_minimize ::
  "engine \<Rightarrow> LBFGS \<Rightarrow> double list \<Rightarrow> double \<Rightarrow> double \<Rightarrow> int \<Rightarrow> callback option \<Rightarrow> world
     \<Rightarrow> (error + (double \<times> double list \<times> LBFGS)) \<times> world" where
  "LBFGS_minimize eng L res epsilon gNormTol maxIter callback w =
     (let w1 = w\<lparr>cb_mem := callback\<rparr> in
      case dereference (heap_of w1) (s_mem L) of
        Inl e \<Rightarrow> (Inl e, w1)
      | Inr s0 \<Rightarrow>
          let run = eng (lbfgs_mem L) (f_mem L) s0 epsilon gNormTol maxIter in
          (case run_callbacks (reports run) w1 of
             Inl e \<Rightarrow> (Inl e, w1)
           | Inr w2 \<Rightarrow>
               (case outcome run of
                  Inl e \<Rightarrow> (Inl e, w2)
                | Inr (val, point) \<Rightarrow>
                    let w3 = w2\<lparr>heap_of := store (heap_of w2) (s_mem L) point\<rparr>;
                        L' = L\<lparr>f_mem := final_func run, lbfgs_mem := final_state run\<rparr>
                    in (case dereference (heap_of w3) (s_mem L') of
                          Inl e \<Rightarrow> (Inl e, w3)
                        | Inr contents \<Rightarrow> (Inr (val, contents, L'), w3)))))"

subsection \<open>The engine's minimize\<close>



















text \<open>
  What the statements about the engine are written with: a result whose only failure
  is the dimension error, and entries and optimizer states all of whose vectors have
  dimension \<open>n\<close>.
\<close>

definition only_dimension_error :: "error + 'a \<Rightarrow> bool" where
  "only_dimension_error r = (case r of Inl e \<Rightarrow> e = DimensionMismatch | Inr a \<Rightarrow> True)"

definition shaped_entry :: "nat \<Rightarrow> entry \<Rightarrow> bool" where
  "shaped_entry n e \<longleftrightarrow> length (s_k e) = n \<and> length (y_k e) = n"

definition shaped :: "nat \<Rightarrow> OptimizerState \<Rightarrow> bool" where
  "shaped n st \<longleftrightarrow>
     length (x_cur st) = n \<and> length (g_cur st) = n \<and> list_all (shaped_entry n) (history st)"

section \<open>The test program lbfgs_test.cpp\<close>

text \<open>
  \<^verbatim>\<open>int\<close> is the 32-bit signed integer. An \<^verbatim>\<open>int\<close> operation whose mathematical result
  leaves the range is undefined in C++ and is the failure \<open>SignedOverflow\<close> here.
\<close>

definition INT_MAX :: int where "INT_MAX = 2147483647"
definition INT_MIN :: int where "INT_MIN = - 2147483648"

definition int_result :: "int \<Rightarrow> error + int" where
  "int_result v = (if INT_MIN \<le> v \<and> v \<le> INT_MAX then Inr v else Inl SignedOverflow)"

definition int_add :: "int \<Rightarrow> int \<Rightarrow> error + int" where
  "int_add a b = int_result (a + b)"

definition int_mul :: "int \<Rightarrow> int \<Rightarrow> error + int" where
  "int_mul a b = int_result (a * b)"

text \<open>\<^verbatim>\<open>x[i]\<close> on a \<^verbatim>\<open>std::vector\<close>: undefined past the end.\<close>

definition subscript :: "double list \<Rightarrow> int \<Rightarrow> error + double" where
  "subscript x i = (if 0 \<le> i \<and> nat i < length x then Inr (x ! nat i) else Inl OutOfRange)"

text \<open>A \<^verbatim>\<open>double\<close> divided by an \<^verbatim>\<open>int\<close>; a zero divisor gives no real number.\<close>

definition divide_by_int :: "double \<Rightarrow> int \<Rightarrow> error + double" where
  "divide_by_int a d = (if d = 0 then Inl DivisionByZero else Inr (a / of_int d))"

text \<open>
  \<^verbatim>\<open>i + processId * n_\<close>. The process id comes from \<^verbatim>\<open>CosmoMPI::create().processId()\<close>
  (\<^verbatim>\<open>cosmo_mpi.hpp\<close> is not among the sources); it is a parameter, \<open>0\<close> for a single
  process. The program is read without \<^verbatim>\<open>COSMO_MPI\<close>: the total is the local sum.
\<close>

definition global_index :: "int \<Rightarrow> int \<Rightarrow> int \<Rightarrow> error + int" where
  "global_index processId n i = bind_err (int_mul processId n) (\<lambda>pn. int_add i pn)"

text \<open>
  The summand of \<^verbatim>\<open>LBFGSFunc::evaluate\<close>:
  \<^verbatim>\<open>std::pow(x[i] - double(i + processId * n_), 2) / (2 * (i + processId * n_ + 1) * (i + processId * n_ + 1))\<close>.
  The divisor is a product of \<^verbatim>\<open>int\<close>s, evaluated from the left.
\<close>

definition LBFGSFunc_term :: "int \<Rightarrow> int \<Rightarrow> double list \<Rightarrow> int \<Rightarrow> error + double" where
  "LBFGSFunc_term processId n x i =
     bind_err (subscript x i) (\<lambda>xi.
     bind_err (global_index processId n i) (\<lambda>k.
     bind_err (int_add k 1) (\<lambda>a.
     bind_err (int_mul 2 a) (\<lambda>b.
     bind_err (int_mul b a) (\<lambda>d.
       divide_by_int ((xi - of_int k)\<^sup>2) d)))))"

text \<open>\<^verbatim>\<open>for(int i = 0; i < n_; ++i) res += ...\<close>\<close>

function LBFGSFunc_loop :: "int \<Rightarrow> int \<Rightarrow> double list \<Rightarrow> int \<Rightarrow> double \<Rightarrow> error + double" where
  "LBFGSFunc_loop processId n x i res =
     (if i < n
      then bind_err (LBFGSFunc_term processId n x i)
             (\<lambda>t. LBFGSFunc_loop processId n x (i + 1) (res + t))
      else Inr res)"
  by pat_completeness auto
termination
  by (relation "measure (\<lambda>(processId, n, x, i, res). nat (n - i))") auto

text \<open>\<^verbatim>\<open>LBFGSFunc(int n) : n_(n) { check(n_ > 0, ""); }\<close>\<close>

definition LBFGSFunc_new :: "bool \<Rightarrow> int \<Rightarrow> error + int" where
  "LBFGSFunc_new checks_on n = bind_err (check checks_on (0 < n)) (\<lambda>_. Inr n)"

text \<open>\<^verbatim>\<open>check(x.size() == n_, "")\<close>, the loop, and \<^verbatim>\<open>return totalRes * totalRes / 2;\<close>\<close>

definition LBFGSFunc_evaluate :: "bool \<Rightarrow> int \<Rightarrow> int \<Rightarrow> double list \<Rightarrow> error + double" where
  "LBFGSFunc_evaluate checks_on processId n x =
     bind_err (check checks_on (int (length x) = n)) (\<lambda>_.
     bind_err (LBFGSFunc_loop processId n x 0 0) (\<lambda>res.
       let totalRes = res in Inr (totalRes * totalRes / 2)))"

text \<open>
  The summand of the first loop of \<^verbatim>\<open>LBFGSFuncGrad::evaluate\<close>:
  \<^verbatim>\<open>std::pow(x[i] - double(i + processId * n_), 2) / ((i + processId * n_ + 1) * (i + processId * n_ + 1))\<close>.
\<close>

definition LBFGSFuncGrad_term :: "int \<Rightarrow> int \<Rightarrow> double list \<Rightarrow> int \<Rightarrow> error + double" where
  "LBFGSFuncGrad_term processId n x i =
     bind_err (subscript x i) (\<lambda>xi.
     bind_err (global_index processId n i) (\<lambda>k.
     bind_err (int_add k 1) (\<lambda>a.
     bind_err (int_mul a a) (\<lambda>d.
       divide_by_int ((xi - of_int k)\<^sup>2) d))))"

function LBFGSFuncGrad_sum :: "int \<Rightarrow> int \<Rightarrow> double list \<Rightarrow> int \<Rightarrow> double \<Rightarrow> error + double" where
  "LBFGSFuncGrad_sum processId n x i acc =
     (if i < n
      then bind_err (LBFGSFuncGrad_term processId n x i)
             (\<lambda>t. LBFGSFuncGrad_sum processId n x (i + 1) (acc + t))
      else Inr acc)"
  by pat_completeness auto
termination
  by (relation "measure (\<lambda>(processId, n, x, i, acc). nat (n - i))") auto

text \<open>
  The right-hand side of the second loop:
  \<^verbatim>\<open>(x[i] - double(i + processId * n_)) * totalSum / (2 * (i + processId * n_ + 1) * (i + processId * n_ + 1))\<close>.
\<close>

definition LBFGSFuncGrad_component ::
  "int \<Rightarrow> int \<Rightarrow> double list \<Rightarrow> double \<Rightarrow> int \<Rightarrow> error + double" where
  "LBFGSFuncGrad_component processId n x totalSum i =
     bind_err (subscript x i) (\<lambda>xi.
     bind_err (global_index processId n i) (\<lambda>k.
     bind_err (int_add k 1) (\<lambda>a.
     bind_err (int_mul 2 a) (\<lambda>b.
     bind_err (int_mul b a) (\<lambda>d.
       divide_by_int ((xi - of_int k) * totalSum) d)))))"

text \<open>\<^verbatim>\<open>res->at(i) = v\<close>: checked access.\<close>

definition assign_at :: "double list \<Rightarrow> int \<Rightarrow> double \<Rightarrow> error + double list" where
  "assign_at res i v =
     (if 0 \<le> i \<and> nat i < length res then Inr (res[nat i := v]) else Inl OutOfRange)"

function LBFGSFuncGrad_fill ::
  "int \<Rightarrow> int \<Rightarrow> double list \<Rightarrow> double \<Rightarrow> int \<Rightarrow> double list \<Rightarrow> error + double list" where
  "LBFGSFuncGrad_fill processId n x totalSum i res =
     (if i < n
      then bind_err (LBFGSFuncGrad_component processId n x totalSum i) (\<lambda>v.
           bind_err (assign_at res i v) (\<lambda>res'.
             LBFGSFuncGrad_fill processId n x totalSum (i + 1) res'))
      else Inr res)"
  by pat_completeness auto
termination
  by (relation "measure (\<lambda>(processId, n, x, totalSum, i, res). nat (n - i))") auto

text \<open>\<^verbatim>\<open>res->resize(n_)\<close>: cut to the first \<open>n\<close> elements or padded with zeros.\<close>

definition resize :: "double list \<Rightarrow> int \<Rightarrow> error + double list" where
  "resize res n =
     (if n < 0 then Inl LengthError
      else Inr (take (nat n) res @ replicate (nat n - length res) 0))"

text \<open>\<^verbatim>\<open>LBFGSFuncGrad::evaluate(x, res)\<close>: the check, the resize, the sum, the components.\<close>

definition LBFGSFuncGrad_evaluate ::
  "bool \<Rightarrow> int \<Rightarrow> int \<Rightarrow> double list \<Rightarrow> double list \<Rightarrow> error + double list" where
  "LBFGSFuncGrad_evaluate checks_on processId n x res =
     bind_err (check checks_on (int (length x) = n)) (\<lambda>_.
     bind_err (resize res n) (\<lambda>res1.
     bind_err (LBFGSFuncGrad_sum processId n x 0 0) (\<lambda>acc.
       let totalSum = acc in LBFGSFuncGrad_fill processId n x totalSum 0 res1)))"

declare LBFGSFunc_loop.simps [simp del]
declare LBFGSFuncGrad_sum.simps [simp del]
declare LBFGSFuncGrad_fill.simps [simp del]

text \<open>
  The mathematical functions the test program is meant to compute, for a point \<open>x\<close>
  of any dimension: \<open>S(x) = \<Sum>\<^sub>i (x\<^sub>i - i)\<^sup>2 / (i + 1)\<^sup>2\<close>, the objective \<open>S(x)\<^sup>2 / 8\<close> and the
  expression \<open>(x\<^sub>i - i) \<cdot> S(x) / (2 (i + 1)\<^sup>2)\<close> for component \<open>i\<close> of its gradient.
\<close>

definition weighted_squares :: "double list \<Rightarrow> double" where
  "weighted_squares x = (\<Sum>j < length x. (x ! j - real j)\<^sup>2 / (real j + 1)\<^sup>2)"

definition analytic_objective :: "double list \<Rightarrow> double" where
  "analytic_objective x = (weighted_squares x)\<^sup>2 / 8"

definition analytic_gradient :: "double list \<Rightarrow> nat \<Rightarrow> double" where
  "analytic_gradient x i = (x ! i - real i) * weighted_squares x / (2 * (real i + 1)\<^sup>2)"

section \<open>Properties of the model\<close>

subsection \<open>The free store\<close>

lemma lookup_alloc_new: "lookup (snd (alloc h v)) (fst (alloc h v)) = Some v"
  by (simp add: lookup_def alloc_def)

lemma lookup_alloc_fresh: "lookup h (fst (alloc h v)) = None"
  by (simp add: lookup_def alloc_def)

lemma lookup_alloc_other: "b \<noteq> fst (alloc h v) \<Longrightarrow> lookup (snd (alloc h v)) b = lookup h b"
  by (auto simp: lookup_def alloc_def nth_append)

subsection \<open>Requests to a bound BasicLBFGSFunc\<close>

lemma lookup_store: "lookup (store h a v) b = (if b = a \<and> a < length h then Some v else lookup h b)"
  by (auto simp: lookup_def store_def)

lemma buffer_live_store: "buffer_live h r \<Longrightarrow> buffer_live (store h a v) r"
  by (cases r) (auto simp: lookup_store)

lemma derivative_heap_live:
  "buffer_live h r \<Longrightarrow> buffer_live (fst (snd (BasicLBFGSFunc_derivative grad F h res tr))) r"
  by (auto simp: BasicLBFGSFunc_derivative_def buffer_live_store split: option.splits sum.splits)

lemma derivative_trace:
  "lookup h res \<noteq> None \<Longrightarrow>
   snd (snd (BasicLBFGSFunc_derivative grad F h res tr)) = tr @ [EvalGrad (x_mem F)]"
  by (auto simp: BasicLBFGSFunc_derivative_def split: option.splits sum.splits)

lemma serve_Value:
  "serve f grad F (Value # rs) h tr =
     (ValueIs (f (x_mem F)) # fst (serve f grad F rs h (tr @ [EvalF (x_mem F)])),
      snd (serve f grad F rs h (tr @ [EvalF (x_mem F)])))"
  by (simp add: BasicLBFGSFunc_value_def split: prod.splits)

lemma serve_Derivative:
  "serve f grad F (Derivative res # rs) h tr =
     (DerivativeIs (fst (BasicLBFGSFunc_derivative grad F h res tr)) #
        fst (serve f grad F rs (fst (snd (BasicLBFGSFunc_derivative grad F h res tr)))
               (snd (snd (BasicLBFGSFunc_derivative grad F h res tr)))),
      snd (serve f grad F rs (fst (snd (BasicLBFGSFunc_derivative grad F h res tr)))
               (snd (snd (BasicLBFGSFunc_derivative grad F h res tr)))))"
  by (simp split: prod.splits)

lemma derivative_outcome:
  "fst (BasicLBFGSFunc_derivative grad F h res tr) =
     (case lookup h res of None \<Rightarrow> Inl InvalidPointer | Some b \<Rightarrow> grad (x_mem F) b)"
  by (simp add: BasicLBFGSFunc_derivative_def split: option.splits sum.splits)

lemma derivative_reply:
  "fst (BasicLBFGSFunc_derivative grad F h res tr) = Inl InvalidPointer \<or>
   (\<exists>b. fst (BasicLBFGSFunc_derivative grad F h res tr) = grad (x_mem F) b)"
proof (cases "lookup h res")
  case None
  then show ?thesis by (simp add: derivative_outcome)
next
  case (Some b)
  then have "fst (BasicLBFGSFunc_derivative grad F h res tr) = grad (x_mem F) b"
    by (simp add: derivative_outcome)
  then show ?thesis by blast
qed

lemma serve_trace:
  "\<forall>r \<in> set rs. buffer_live h r \<Longrightarrow>
   snd (snd (serve f grad F rs h tr)) = tr @ map (call_of (x_mem F)) rs"
proof (induction rs arbitrary: h tr)
  case Nil
  then show ?case by simp
next
  case (Cons r rs)
  show ?case
  proof (cases r)
    case Value
    from Cons.prems have "\<forall>r \<in> set rs. buffer_live h r" by simp
    from Cons.IH [OF this, of "tr @ [EvalF (x_mem F)]"] Value show ?thesis
      by (simp add: serve_Value del: serve.simps)
  next
    case (Derivative res)
    from Cons.prems Derivative have live: "lookup h res \<noteq> None" by simp
    have "\<forall>r \<in> set rs. buffer_live (fst (snd (BasicLBFGSFunc_derivative grad F h res tr))) r"
      using Cons.prems derivative_heap_live [of h _ grad F res tr] by simp
    from Cons.IH [OF this, of "snd (snd (BasicLBFGSFunc_derivative grad F h res tr))"]
    show ?thesis
      using Derivative derivative_trace [OF live, of grad F tr]
      by (simp add: serve_Derivative del: serve.simps)
  qed
qed

lemma serve_length: "length (fst (serve f grad F rs h tr)) = length rs"
proof (induction rs arbitrary: h tr)
  case Nil
  then show ?case by simp
next
  case (Cons r rs)
  then show ?case
    by (cases r) (simp_all add: serve_Value serve_Derivative del: serve.simps)
qed

lemma serve_replies:
  "i < length rs \<Longrightarrow>
   (rs ! i = Value \<longrightarrow> fst (serve f grad F rs h tr) ! i = ValueIs (f (x_mem F))) \<and>
   (\<forall>res. rs ! i = Derivative res \<longrightarrow>
      fst (serve f grad F rs h tr) ! i = DerivativeIs (Inl InvalidPointer) \<or>
      (\<exists>b. fst (serve f grad F rs h tr) ! i = DerivativeIs (grad (x_mem F) b)))"
proof (induction rs arbitrary: i h tr)
  case Nil
  then show ?case by simp
next
  case (Cons r rs)
  show ?case
  proof (cases i)
    case 0
    show ?thesis
    proof (cases r)
      case Value
      with 0 show ?thesis by (simp add: serve_Value del: serve.simps)
    next
      case (Derivative res)
      with 0 derivative_reply [of grad F h res tr] show ?thesis
        by (auto simp add: serve_Derivative simp del: serve.simps)
    qed
  next
    case (Suc j)
    with Cons.prems have j: "j < length rs" by simp
    show ?thesis
    proof (cases r)
      case Value
      with Suc Cons.IH [OF j, of h "tr @ [EvalF (x_mem F)]"] show ?thesis
        by (simp add: serve_Value del: serve.simps)
    next
      case (Derivative res)
      with Suc
        Cons.IH [OF j, of "fst (snd (BasicLBFGSFunc_derivative grad F h res tr))"
                          "snd (snd (BasicLBFGSFunc_derivative grad F h res tr))"]
      show ?thesis
        by (simp add: serve_Derivative del: serve.simps)
    qed
  qed
qed

subsection \<open>The bound point is a copy\<close>

lemma lookup_SomeD: "lookup h a = Some v \<Longrightarrow> a < length h"
  by (auto simp: lookup_def split: if_splits)

lemma derivative_heap:
  "lookup (fst (snd (BasicLBFGSFunc_derivative grad F h res tr))) b =
     (if b = res
      then (case lookup h res of
              None \<Rightarrow> None
            | Some old \<Rightarrow> (case grad (x_mem F) old of Inl e \<Rightarrow> Some old | Inr r' \<Rightarrow> Some r'))
      else lookup h b)"
  by (auto simp: BasicLBFGSFunc_derivative_def lookup_store dest: lookup_SomeD
           split: option.splits sum.splits)

lemma serve_agree:
  "\<forall>res. Derivative res \<in> set rs \<longrightarrow> lookup k1 res = lookup k2 res \<Longrightarrow>
   fst (serve f grad F rs k1 t1) = fst (serve f grad F rs k2 t2)"
proof (induction rs arbitrary: k1 k2 t1 t2)
  case Nil
  then show ?case by simp
next
  case (Cons r rs)
  show ?case
  proof (cases r)
    case Value
    have "fst (serve f grad F rs k1 (t1 @ [EvalF (x_mem F)])) =
          fst (serve f grad F rs k2 (t2 @ [EvalF (x_mem F)]))"
      using Cons.prems by (intro Cons.IH) simp_all
    with Value show ?thesis
      by (simp add: serve_Value del: serve.simps)
  next
    case (Derivative res)
    let ?D1 = "BasicLBFGSFunc_derivative grad F k1 res t1"
    let ?D2 = "BasicLBFGSFunc_derivative grad F k2 res t2"
    have same: "lookup k1 res = lookup k2 res"
      using Cons.prems Derivative by simp
    have out: "fst ?D1 = fst ?D2"
      unfolding derivative_outcome same ..
    have "\<forall>b. Derivative b \<in> set rs \<longrightarrow>
            lookup (fst (snd ?D1)) b = lookup (fst (snd ?D2)) b"
      using same Cons.prems by (simp add: derivative_heap)
    then have "fst (serve f grad F rs (fst (snd ?D1)) (snd (snd ?D1))) =
          fst (serve f grad F rs (fst (snd ?D2)) (snd (snd ?D2)))"
      by (intro Cons.IH) simp_all
    with Derivative out show ?thesis
      by (simp add: serve_Derivative del: serve.simps)
  qed
qed

lemma set_binds: "BasicLBFGSFunc_set h a F0 = Inr F \<Longrightarrow> lookup h a = Some (x_mem F)"
  by (auto simp: BasicLBFGSFunc_set_def split: option.splits)

subsection \<open>The history buffer\<close>

lemma insert_entry_last:
  "0 < m \<Longrightarrow> length h \<le> m \<Longrightarrow> insert_entry m e h = last_entries m (h @ [e])"
  by (cases h) (auto simp: insert_entry_def last_entries_def)

lemma last_entries_append:
  "last_entries m (last_entries m u @ v) = last_entries m (u @ v)"
proof (cases "length u \<le> m")
  case True
  then show ?thesis by (simp add: last_entries_def)
next
  case False
  then have "length u - m + length v = length u + length v - m" by simp
  with False show ?thesis
    by (simp add: last_entries_def add.commute)
qed

lemma last_entries_length: "length (last_entries m es) \<le> m"
  by (simp add: last_entries_def)

lemma last_entries_id: "length h \<le> m \<Longrightarrow> last_entries m h = h"
  by (simp add: last_entries_def)

lemma dotProduct_well_shaped:
  "well_shaped n st \<Longrightarrow>
   \<exists>sy. dotProduct (difference (x_new st) (x_old st)) (difference (g_new st) (g_old st)) = Inr sy"
  by (simp add: well_shaped_def dotProduct_def difference_def)

lemma update_history_accepted:
  assumes "well_shaped n st"
  shows "update_history eps m st h =
           Inr (case accepted_entry eps st of None \<Rightarrow> h | Some e \<Rightarrow> insert_entry m e h)"
proof -
  obtain sy where
    "dotProduct (difference (x_new st) (x_old st)) (difference (g_new st) (g_old st)) = Inr sy"
    using dotProduct_well_shaped [OF assms] by blast
  then show ?thesis
    by (simp add: update_history_def accepted_entry_def Let_def)
qed

lemma accepted_Cons:
  "accepted eps (st # sts) =
     (case accepted_entry eps st of None \<Rightarrow> accepted eps sts | Some e \<Rightarrow> e # accepted eps sts)"
  by (simp add: accepted_def List.map_filter_simps split: option.splits)

lemma run_history_last:
  "0 < m \<Longrightarrow> length h \<le> m \<Longrightarrow> \<forall>st \<in> set sts. well_shaped n st \<Longrightarrow>
   run_history eps m sts h = Inr (last_entries m (h @ accepted eps sts))"
proof (induction sts arbitrary: h)
  case Nil
  then show ?case by (simp add: accepted_def List.map_filter_simps last_entries_id)
next
  case (Cons st sts)
  from Cons.prems have ws: "well_shaped n st" and rest: "\<forall>st \<in> set sts. well_shaped n st"
    by simp_all
  show ?case
  proof (cases "accepted_entry eps st")
    case None
    then have "update_history eps m st h = Inr h"
      using update_history_accepted [OF ws, of eps m h] by simp
    with None Cons.IH [OF Cons.prems(1,2) rest] show ?thesis
      by (simp add: accepted_Cons)
  next
    case (Some e)
    then have u: "update_history eps m st h = Inr (insert_entry m e h)"
      using update_history_accepted [OF ws, of eps m h] by simp
    have ins: "insert_entry m e h = last_entries m (h @ [e])"
      using Cons.prems by (intro insert_entry_last) simp_all
    have len: "length (insert_entry m e h) \<le> m"
      unfolding ins by (rule last_entries_length)
    have "run_history eps m sts (insert_entry m e h) =
            Inr (last_entries m (insert_entry m e h @ accepted eps sts))"
      using Cons.prems(1) len rest by (rule Cons.IH)
    also have "last_entries m (insert_entry m e h @ accepted eps sts) =
               last_entries m ((h @ [e]) @ accepted eps sts)"
      unfolding ins by (rule last_entries_append)
    finally show ?thesis
      using Some u by (simp add: accepted_Cons)
  qed
qed

lemma accepted_entry_curvature:
  "accepted_entry eps st = Some e \<Longrightarrow> curvature_above eps e"
  by (auto simp: accepted_entry_def curvature_above_def Let_def split: sum.splits if_splits)

lemma accepted_curvature: "e \<in> set (accepted eps sts) \<Longrightarrow> curvature_above eps e"
  by (auto simp: accepted_def List.map_filter_def dest: accepted_entry_curvature)

lemma update_history_keeps:
  assumes "update_history eps m st h = Inr h'" and "\<forall>e \<in> set h. curvature_above eps e"
  shows "\<forall>e \<in> set h'. curvature_above eps e"
proof -
  let ?s = "difference (x_new st) (x_old st)" and ?y = "difference (g_new st) (g_old st)"
  from assms(1) obtain sy where sy: "dotProduct ?s ?y = Inr sy"
    by (cases "dotProduct ?s ?y") (simp_all add: update_history_def Let_def)
  show ?thesis
  proof (cases "sy \<le> eps")
    case True
    with assms sy show ?thesis by (simp add: update_history_def Let_def)
  next
    case False
    let ?e = "\<lparr>s_k = ?s, y_k = ?y, rho_k = 1 / sy\<rparr>"
    have h': "h' = insert_entry m ?e h"
      using assms(1) sy False by (simp add: update_history_def Let_def)
    have new: "curvature_above eps ?e"
      using sy False by (simp add: curvature_above_def)
    have "set (insert_entry m ?e h) \<subseteq> insert ?e (set h)"
      by (cases h) (auto simp: insert_entry_def)
    with new assms(2) show ?thesis
      unfolding h' by blast
  qed
qed

lemma run_history_keeps:
  "run_history eps m sts h = Inr h' \<Longrightarrow> \<forall>e \<in> set h. curvature_above eps e \<Longrightarrow>
   \<forall>e \<in> set h'. curvature_above eps e"
proof (induction sts arbitrary: h)
  case Nil
  then show ?case by simp
next
  case (Cons st sts)
  from Cons.prems(1) obtain h1 where h1: "update_history eps m st h = Inr h1"
      and r: "run_history eps m sts h1 = Inr h'"
    by (cases "update_history eps m st h") simp_all
  from update_history_keeps [OF h1 Cons.prems(2)] have "\<forall>e \<in> set h1. curvature_above eps e" .
  from Cons.IH [OF r this] show ?case .
qed

subsection \<open>The wrapper and its engine\<close>

lemma lookup_store_same: "lookup h a = Some v0 \<Longrightarrow> lookup (store h a v) a = Some v"
  by (auto simp: lookup_store dest: lookup_SomeD)

lemma LBFGS_General_setStarting_mismatch:
  assumes "0 \<le> n_mem factory" and "int (length starting) \<noteq> n_mem factory"
  shows "LBFGS_General_setStarting factory f grad F starting m = Inl DimensionMismatch"
  using assms by (auto simp: LBFGS_General_setStarting_def BasicLargeVector_def)

lemma LBFGS_General_setStarting_dimension:
  assumes "LBFGS_General_setStarting factory f grad F starting m = Inr (st, F')"
  shows "int (length starting) = n_mem factory \<and> x_cur st = starting \<and> iteration st = 0"
proof -
  have n: "\<not> n_mem factory < 0"
    using assms by (auto simp: LBFGS_General_setStarting_def BasicLargeVector_def)
  then have "length starting = nat (n_mem factory)"
    using assms
    by (auto simp: LBFGS_General_setStarting_def BasicLargeVector_def Let_def split: if_splits)
  moreover have "x_cur st = starting \<and> iteration st = 0"
    using assms n
    by (cases "f starting"; cases "grad starting (replicate (nat (n_mem factory)) 0)")
       (auto simp: LBFGS_General_setStarting_def BasicLargeVector_def Let_def split: if_splits)
  ultimately show ?thesis using n by simp
qed

lemma run_callbacks_total:
  "\<exists>w'. run_callbacks rs w = Inr w' \<and> heap_of w' = heap_of w \<and> cb_mem w' = cb_mem w"
proof (induction rs arbitrary: w)
  case Nil
  then show ?case by simp
next
  case (Cons r rs)
  obtain w1 where w1: "myCallBack r w = Inr w1" "heap_of w1 = heap_of w" "cb_mem w1 = cb_mem w"
    by (cases "cb_mem w") (auto simp: myCallBack_def call_pointer_def)
  from Cons.IH [of w1] w1 show ?case by auto
qed

lemma run_callbacks_null:
  "cb_mem w = None \<Longrightarrow> run_callbacks rs w = Inr w"
  by (induction rs) (simp_all add: myCallBack_def)

lemma giveMeOne_Inr:
  "giveMeOne factory h = Inr (s, h1) \<Longrightarrow>
   s = length h \<and> h1 = h @ [Some (replicate (nat (n_mem factory)) 0)] \<and> 0 \<le> n_mem factory"
  by (auto simp: giveMeOne_def BasicLargeVector_def alloc_def split: if_splits)

lemma LBFGS_new_mismatch:
  assumes "0 \<le> n" and "int (length starting) \<noteq> n"
  shows "LBFGS_new checks_on n f grad starting m h = Inl DimensionMismatch"
proof -
  let ?fac = "\<lparr>n_mem = n\<rparr>"
  let ?h1 = "h @ [Some (replicate (nat n) 0)]"
  have fac: "BasicLargeVectorFactory_new checks_on n = Inr ?fac"
    using assms(1) by (simp add: BasicLargeVectorFactory_new_def check_def)
  have one: "giveMeOne ?fac h = Inr (length h, ?h1)"
    using assms(1) by (simp add: giveMeOne_def BasicLargeVector_def alloc_def)
  have asg: "assign_contents ?h1 (length h) starting = Inr (store ?h1 (length h) starting)"
    by (simp add: assign_contents_def dereference_def lookup_def)
  have der: "dereference (store ?h1 (length h) starting) (length h) = Inr starting"
    by (simp add: dereference_def lookup_def store_def)
  have eng: "LBFGS_General_new ?fac f grad BasicLBFGSFunc_new starting m = Inl DimensionMismatch"
    unfolding LBFGS_General_new_def
    using assms by (intro LBFGS_General_setStarting_mismatch) simp_all
  show ?thesis
    unfolding LBFGS_new_def fac bind_err.simps one asg der eng prod.case ..
qed

lemma LBFGS_new_Inr:
  assumes "LBFGS_new checks_on n f grad start0 m h = Inr (L, h')"
  shows "n_mem (factory_mem L) = n \<and> 0 \<le> n \<and> int (length start0) = n \<and>
         lookup h' (s_mem L) = Some start0 \<and> x_cur (lbfgs_mem L) = start0 \<and>
         iteration (lbfgs_mem L) = 0"
proof -
  from assms obtain factory where fac: "BasicLargeVectorFactory_new checks_on n = Inr factory"
    by (cases "BasicLargeVectorFactory_new checks_on n") (simp_all add: LBFGS_new_def)
  then have facn: "n_mem factory = n"
    by (auto simp: BasicLargeVectorFactory_new_def check_def split: if_splits)
  from assms fac obtain s h1 where one: "giveMeOne factory h = Inr (s, h1)"
    by (cases "giveMeOne factory h") (auto simp: LBFGS_new_def)
  note g = giveMeOne_Inr [OF one]
  have asg: "assign_contents h1 s start0 = Inr (store h1 s start0)"
    using g by (simp add: assign_contents_def dereference_def lookup_def)
  have der: "dereference (store h1 s start0) s = Inr start0"
    using g by (simp add: dereference_def lookup_def store_def)
  from assms obtain st F where
    eng: "LBFGS_General_new factory f grad BasicLBFGSFunc_new start0 m = Inr (st, F)"
    and L: "L = \<lparr>factory_mem = factory, f_mem = F, s_mem = s, lbfgs_mem = st\<rparr>"
    and h': "h' = store h1 s start0"
    unfolding LBFGS_new_def fac bind_err.simps one asg der prod.case
    by (cases "LBFGS_General_new factory f grad BasicLBFGSFunc_new start0 m") auto
  from LBFGS_General_setStarting_dimension [OF eng [unfolded LBFGS_General_new_def]]
  have "int (length start0) = n_mem factory \<and> x_cur st = start0 \<and> iteration st = 0" .
  moreover have "lookup h' (s_mem L) = Some start0"
    using der unfolding L h' by (auto simp: dereference_def split: option.splits)
  ultimately show ?thesis
    using facn g L by simp
qed

lemma LBFGS_setStarting_mismatch:
  assumes "lookup h (s_mem L) = Some s0" and "0 \<le> n_mem (factory_mem L)"
    and "int (length starting) \<noteq> n_mem (factory_mem L)"
  shows "LBFGS_setStarting f grad L starting h = Inl DimensionMismatch"
proof -
  have asg: "assign_contents h (s_mem L) starting = Inr (store h (s_mem L) starting)"
    using assms(1) by (simp add: assign_contents_def dereference_def)
  have der: "dereference (store h (s_mem L) starting) (s_mem L) = Inr starting"
    using lookup_store_same [OF assms(1)] by (simp add: dereference_def)
  have eng: "LBFGS_General_setStarting (factory_mem L) f grad (f_mem L) starting
               (memory_depth (lbfgs_mem L)) = Inl DimensionMismatch"
    using assms(2,3) by (rule LBFGS_General_setStarting_mismatch)
  show ?thesis
    unfolding LBFGS_setStarting_def asg bind_err.simps der eng ..
qed

lemma minimize_null_world:
  "snd (LBFGS_minimize eng L res epsilon gNormTol maxIter None w) =
     w\<lparr>cb_mem := None\<rparr> \<or>
   (\<exists>point. snd (LBFGS_minimize eng L res epsilon gNormTol maxIter None w) =
     w\<lparr>cb_mem := None, heap_of := store (heap_of w) (s_mem L) point\<rparr>)"
proof -
  let ?w1 = "w\<lparr>cb_mem := None\<rparr>"
  have rc: "run_callbacks rs ?w1 = Inr ?w1" for rs
    by (intro run_callbacks_null) simp
  show ?thesis
  proof (cases "dereference (heap_of ?w1) (s_mem L)")
    case (Inl e)
    then show ?thesis by (simp add: LBFGS_minimize_def Let_def)
  next
    case (Inr s0)
    let ?run = "eng (lbfgs_mem L) (f_mem L) s0 epsilon gNormTol maxIter"
    show ?thesis
    proof (cases "outcome ?run")
      case (Inl e)
      with Inr rc show ?thesis by (simp add: LBFGS_minimize_def Let_def)
    next
      case (Inr vp)
      obtain val point where vp: "vp = (val, point)" by (cases vp)
      have "snd (LBFGS_minimize eng L res epsilon gNormTol maxIter None w) =
              w\<lparr>cb_mem := None, heap_of := store (heap_of w) (s_mem L) point\<rparr>"
        using \<open>dereference (heap_of ?w1) (s_mem L) = Inr s0\<close> Inr vp rc
        by (simp add: LBFGS_minimize_def Let_def split: sum.splits)
      then show ?thesis by blast
    qed
  qed
qed

subsection \<open>Runs of the engine\<close>


lemma ode_Inl [simp]: "only_dimension_error (Inl e) \<longleftrightarrow> e = DimensionMismatch"
  by (simp add: only_dimension_error_def)












lemma bind_err_Inr:
  "bind_err r k = Inr b \<Longrightarrow> \<exists>a. r = Inr a \<and> k a = Inr b"
  by (cases r) simp_all
















lemma LBFGS_new_ready:
  assumes "LBFGS_new checks_on n f grad start0 m h = Inr (L, h')"
    and "\<forall>x b. length x = nat n \<longrightarrow> (\<exists>g. grad x b = Inr g \<and> length g = nat n)"
  shows "lookup h' (s_mem L) = Some start0 \<and> shaped (nat n) (lbfgs_mem L) \<and>
         f (x_cur (lbfgs_mem L)) = Inr (f_cur (lbfgs_mem L))"
proof -
  from assms(1) obtain factory where fac: "BasicLargeVectorFactory_new checks_on n = Inr factory"
    by (cases "BasicLargeVectorFactory_new checks_on n") (simp_all add: LBFGS_new_def)
  then have facn: "n_mem factory = n"
    by (auto simp: BasicLargeVectorFactory_new_def check_def split: if_splits)
  from assms(1) fac obtain s h1 where one: "giveMeOne factory h = Inr (s, h1)"
    by (cases "giveMeOne factory h") (auto simp: LBFGS_new_def)
  note g = giveMeOne_Inr [OF one]
  have asg: "assign_contents h1 s start0 = Inr (store h1 s start0)"
    using g by (simp add: assign_contents_def dereference_def lookup_def)
  have der: "dereference (store h1 s start0) s = Inr start0"
    using g by (simp add: dereference_def lookup_def store_def)
  from assms(1) obtain st F where
    eng: "LBFGS_General_setStarting factory f grad BasicLBFGSFunc_new start0 m = Inr (st, F)"
    and L: "L = \<lparr>factory_mem = factory, f_mem = F, s_mem = s, lbfgs_mem = st\<rparr>"
    unfolding LBFGS_new_def fac bind_err.simps one asg der prod.case LBFGS_General_new_def
    by (cases "LBFGS_General_setStarting factory f grad BasicLBFGSFunc_new start0 m") auto
  note built = LBFGS_new_Inr [OF assms(1)]
  have len: "length start0 = nat n"
    using built by auto
  have cr: "BasicLargeVector (n_mem factory) = Inr (replicate (nat n) 0)"
    using built facn by (simp add: BasicLargeVector_def)
  from eng obtain v where v: "f start0 = Inr v"
    unfolding LBFGS_General_setStarting_def cr bind_err.simps using len
    by (cases "f start0") (auto simp: Let_def split: if_splits)
  from eng v obtain gr where gr: "grad start0 (replicate (nat n) 0) = Inr gr"
    unfolding LBFGS_General_setStarting_def cr bind_err.simps using len
    by (cases "grad start0 (replicate (nat n) 0)") (auto simp: Let_def split: if_splits)
  from eng v gr have st: "x_cur st = start0" "g_cur st = gr" "f_cur st = v" "history st = []"
    unfolding LBFGS_General_setStarting_def cr bind_err.simps using len
    by (auto simp: Let_def split: if_splits)
  have "length gr = nat n"
    using assms(2) len gr by (metis sum.inject(2))
  then have "shaped (nat n) st"
    using st len by (simp add: shaped_def)
  with built st v L show ?thesis by simp
qed

subsection \<open>The objective of the test program\<close>

lemmas int_ops = int_mul_def int_add_def int_result_def INT_MAX_def INT_MIN_def

lemma square_bound:
  fixes a :: int
  assumes "0 \<le> a" "a \<le> b"
  shows "a * a \<le> b * b"
  using assms by (intro mult_mono) auto

lemma global_index_single: "INT_MIN \<le> i \<Longrightarrow> i \<le> INT_MAX \<Longrightarrow> global_index 0 n i = Inr i"
  by (simp add: global_index_def int_ops)

lemma LBFGSFunc_term_ok:
  assumes "0 \<le> i" "i < int (length x)" "i \<le> 32766"
  shows "LBFGSFunc_term 0 n x i =
           Inr ((x ! nat i - real_of_int i)\<^sup>2 / (2 * (real_of_int i + 1)\<^sup>2))"
proof -
  have sq: "(i + 1) * (i + 1) \<le> 32767 * 32767"
    using assms by (intro square_bound) auto
  have pos: "0 < (i + 1) * (i + 1)"
    using assms by simp
  have gi: "global_index 0 n i = Inr i"
    using assms by (intro global_index_single) (simp_all add: INT_MIN_def INT_MAX_def)
  have a: "int_add i 1 = Inr (i + 1)"
    using assms by (simp add: int_ops)
  have b: "int_mul 2 (i + 1) = Inr (2 * (i + 1))"
    using assms by (simp add: int_ops)
  define q where "q = (i + 1) * (i + 1)"
  have prod: "(2 * (i + 1)) * (i + 1) = 2 * q"
    unfolding q_def by (simp only: mult.assoc)
  have "int_result (2 * q) = Inr (2 * q)"
    using sq pos unfolding q_def [symmetric] by (simp add: int_ops)
  then have d: "int_mul (2 * (i + 1)) (i + 1) = Inr (2 * q)"
    unfolding int_mul_def prod .
  have sub: "subscript x i = Inr (x ! nat i)"
    using assms by (simp add: subscript_def)
  have nz: "2 * q \<noteq> 0"
    using assms unfolding q_def by simp
  have den: "real_of_int (2 * q) = 2 * (real_of_int i + 1)\<^sup>2"
    unfolding q_def by (simp add: power2_eq_square)
  have "LBFGSFunc_term 0 n x i = divide_by_int ((x ! nat i - real_of_int i)\<^sup>2) (2 * q)"
    unfolding LBFGSFunc_term_def sub gi a b d bind_err.simps ..
  also have "\<dots> = Inr ((x ! nat i - real_of_int i)\<^sup>2 / real_of_int (2 * q))"
    using nz unfolding divide_by_int_def by simp
  finally show ?thesis
    unfolding den .
qed

lemma LBFGSFunc_term_overflow:
  assumes "32767 < int (length x)"
  shows "LBFGSFunc_term 0 n x 32767 = Inl SignedOverflow"
  using assms
  by (simp add: LBFGSFunc_term_def subscript_def global_index_def int_ops)

lemma LBFGSFunc_loop_ok:
  "pid = 0 \<Longrightarrow> 0 \<le> i \<Longrightarrow> n = int (length x) \<Longrightarrow> n \<le> 32767 \<Longrightarrow>
   LBFGSFunc_loop pid n x i res =
     Inr (res + (\<Sum>j = nat i ..< length x. (x ! j - real j)\<^sup>2 / (2 * (real j + 1)\<^sup>2)))"
proof (induction pid n x i res rule: LBFGSFunc_loop.induct)
  case (1 pid n x i res)
  show ?case
  proof (cases "i < n")
    case True
    define t where "t = (x ! nat i - real (nat i))\<^sup>2 / (2 * (real (nat i) + 1)\<^sup>2)"
    have "LBFGSFunc_term 0 n x i =
        Inr ((x ! nat i - real_of_int i)\<^sup>2 / (2 * (real_of_int i + 1)\<^sup>2))"
      using "1.prems" True by (intro LBFGSFunc_term_ok) simp_all
    then have t: "LBFGSFunc_term pid n x i = Inr t"
      using "1.prems" by (simp add: t_def)
    have nxt: "nat (i + 1) = Suc (nat i)"
      using "1.prems" by simp
    have lt: "nat i < length x"
      using True "1.prems" by simp
    have step: "LBFGSFunc_loop pid n x i res = LBFGSFunc_loop pid n x (i + 1) (res + t)"
      using True t by (subst LBFGSFunc_loop.simps) simp
    have ih: "LBFGSFunc_loop pid n x (i + 1) (res + t) =
        Inr (res + t +
             (\<Sum>j = nat (i + 1) ..< length x. (x ! j - real j)\<^sup>2 / (2 * (real j + 1)\<^sup>2)))"
      using "1.prems" True by (intro "1.IH") simp_all
    show ?thesis
      unfolding step ih nxt using lt by (simp add: sum.atLeast_Suc_lessThan t_def)
  next
    case False
    with "1.prems" show ?thesis
      by (subst LBFGSFunc_loop.simps) simp
  qed
qed

lemma LBFGSFunc_loop_overflow:
  "pid = 0 \<Longrightarrow> 0 \<le> i \<Longrightarrow> i \<le> 32767 \<Longrightarrow> n = int (length x) \<Longrightarrow> 32767 < n \<Longrightarrow>
   LBFGSFunc_loop pid n x i res = Inl SignedOverflow"
proof (induction pid n x i res rule: LBFGSFunc_loop.induct)
  case (1 pid n x i res)
  have lt: "i < n" using "1.prems" by simp
  show ?case
  proof (cases "i = 32767")
    case True
    have "LBFGSFunc_term pid n x i = Inl SignedOverflow"
      using "1.prems" True by (simp add: LBFGSFunc_term_overflow)
    then show ?thesis
      using lt by (subst LBFGSFunc_loop.simps) simp
  next
    case False
    have "LBFGSFunc_term 0 n x i =
        Inr ((x ! nat i - real_of_int i)\<^sup>2 / (2 * (real_of_int i + 1)\<^sup>2))"
      using "1.prems" False by (intro LBFGSFunc_term_ok) simp_all
    then obtain t where t: "LBFGSFunc_term pid n x i = Inr t"
      using "1.prems" by simp
    have "LBFGSFunc_loop pid n x (i + 1) (res + t) = Inl SignedOverflow"
      using "1.prems" False lt by (intro "1.IH") simp_all
    then show ?thesis
      using lt t by (subst LBFGSFunc_loop.simps) simp
  qed
qed

subsection \<open>The gradient of the test program\<close>

lemma LBFGSFuncGrad_term_ok:
  assumes "0 \<le> i" "i < int (length x)" "i \<le> 46339"
  shows "LBFGSFuncGrad_term 0 n x i =
           Inr ((x ! nat i - real_of_int i)\<^sup>2 / (real_of_int i + 1)\<^sup>2)"
proof -
  have sq: "(i + 1) * (i + 1) \<le> 46340 * 46340"
    using assms by (intro square_bound) auto
  have pos: "0 < (i + 1) * (i + 1)"
    using assms by simp
  have gi: "global_index 0 n i = Inr i"
    using assms by (intro global_index_single) (simp_all add: INT_MIN_def INT_MAX_def)
  have a: "int_add i 1 = Inr (i + 1)"
    using assms by (simp add: int_ops)
  define q where "q = (i + 1) * (i + 1)"
  have "int_result q = Inr q"
    using sq pos unfolding q_def [symmetric] by (simp add: int_ops)
  then have d: "int_mul (i + 1) (i + 1) = Inr q"
    unfolding int_mul_def q_def .
  have sub: "subscript x i = Inr (x ! nat i)"
    using assms by (simp add: subscript_def)
  have nz: "q \<noteq> 0"
    using assms unfolding q_def by simp
  have den: "real_of_int q = (real_of_int i + 1)\<^sup>2"
    unfolding q_def by (simp add: power2_eq_square)
  have "LBFGSFuncGrad_term 0 n x i = divide_by_int ((x ! nat i - real_of_int i)\<^sup>2) q"
    unfolding LBFGSFuncGrad_term_def sub gi a d bind_err.simps ..
  also have "\<dots> = Inr ((x ! nat i - real_of_int i)\<^sup>2 / real_of_int q)"
    using nz unfolding divide_by_int_def by simp
  finally show ?thesis
    unfolding den .
qed

lemma LBFGSFuncGrad_sum_ok:
  "pid = 0 \<Longrightarrow> 0 \<le> i \<Longrightarrow> n = int (length x) \<Longrightarrow> n \<le> 46340 \<Longrightarrow>
   LBFGSFuncGrad_sum pid n x i acc =
     Inr (acc + (\<Sum>j = nat i ..< length x. (x ! j - real j)\<^sup>2 / (real j + 1)\<^sup>2))"
proof (induction pid n x i acc rule: LBFGSFuncGrad_sum.induct)
  case (1 pid n x i acc)
  show ?case
  proof (cases "i < n")
    case True
    define t where "t = (x ! nat i - real (nat i))\<^sup>2 / (real (nat i) + 1)\<^sup>2"
    have "LBFGSFuncGrad_term 0 n x i =
        Inr ((x ! nat i - real_of_int i)\<^sup>2 / (real_of_int i + 1)\<^sup>2)"
      using "1.prems" True by (intro LBFGSFuncGrad_term_ok) simp_all
    then have t: "LBFGSFuncGrad_term pid n x i = Inr t"
      using "1.prems" by (simp add: t_def)
    have nxt: "nat (i + 1) = Suc (nat i)"
      using "1.prems" by simp
    have lt: "nat i < length x"
      using True "1.prems" by simp
    have step: "LBFGSFuncGrad_sum pid n x i acc = LBFGSFuncGrad_sum pid n x (i + 1) (acc + t)"
      using True t by (subst LBFGSFuncGrad_sum.simps) simp
    have ih: "LBFGSFuncGrad_sum pid n x (i + 1) (acc + t) =
        Inr (acc + t +
             (\<Sum>j = nat (i + 1) ..< length x. (x ! j - real j)\<^sup>2 / (real j + 1)\<^sup>2))"
      using "1.prems" True by (intro "1.IH") simp_all
    show ?thesis
      unfolding step ih nxt using lt by (simp add: sum.atLeast_Suc_lessThan t_def)
  next
    case False
    with "1.prems" show ?thesis
      by (subst LBFGSFuncGrad_sum.simps) simp
  qed
qed

lemma LBFGSFuncGrad_component_ok:
  assumes "0 \<le> i" "i < int (length x)" "i \<le> 32766"
  shows "LBFGSFuncGrad_component 0 n x totalSum i =
           Inr ((x ! nat i - real_of_int i) * totalSum / (2 * (real_of_int i + 1)\<^sup>2))"
proof -
  have sq: "(i + 1) * (i + 1) \<le> 32767 * 32767"
    using assms by (intro square_bound) auto
  have pos: "0 < (i + 1) * (i + 1)"
    using assms by simp
  have gi: "global_index 0 n i = Inr i"
    using assms by (intro global_index_single) (simp_all add: INT_MIN_def INT_MAX_def)
  have a: "int_add i 1 = Inr (i + 1)"
    using assms by (simp add: int_ops)
  have b: "int_mul 2 (i + 1) = Inr (2 * (i + 1))"
    using assms by (simp add: int_ops)
  define q where "q = (i + 1) * (i + 1)"
  have prod: "(2 * (i + 1)) * (i + 1) = 2 * q"
    unfolding q_def by (simp only: mult.assoc)
  have "int_result (2 * q) = Inr (2 * q)"
    using sq pos unfolding q_def [symmetric] by (simp add: int_ops)
  then have d: "int_mul (2 * (i + 1)) (i + 1) = Inr (2 * q)"
    unfolding int_mul_def prod .
  have sub: "subscript x i = Inr (x ! nat i)"
    using assms by (simp add: subscript_def)
  have nz: "2 * q \<noteq> 0"
    using assms unfolding q_def by simp
  have den: "real_of_int (2 * q) = 2 * (real_of_int i + 1)\<^sup>2"
    unfolding q_def by (simp add: power2_eq_square)
  have "LBFGSFuncGrad_component 0 n x totalSum i =
          divide_by_int ((x ! nat i - real_of_int i) * totalSum) (2 * q)"
    unfolding LBFGSFuncGrad_component_def sub gi a b d bind_err.simps ..
  also have "\<dots> = Inr ((x ! nat i - real_of_int i) * totalSum / real_of_int (2 * q))"
    using nz unfolding divide_by_int_def by simp
  finally show ?thesis
    unfolding den .
qed

lemma LBFGSFuncGrad_component_overflow:
  assumes "32767 < int (length x)"
  shows "LBFGSFuncGrad_component 0 n x totalSum 32767 = Inl SignedOverflow"
  using assms
  by (simp add: LBFGSFuncGrad_component_def subscript_def global_index_def int_ops)

lemma LBFGSFuncGrad_fill_ok:
  "pid = 0 \<Longrightarrow> 0 \<le> i \<Longrightarrow> n = int (length x) \<Longrightarrow> n \<le> 32767 \<Longrightarrow> length res = length x \<Longrightarrow>
   \<exists>r. LBFGSFuncGrad_fill pid n x totalSum i res = Inr r \<and> length r = length x \<and>
       (\<forall>j < length x. r ! j =
          (if j < nat i then res ! j
           else (x ! j - real j) * totalSum / (2 * (real j + 1)\<^sup>2)))"
proof (induction pid n x totalSum i res rule: LBFGSFuncGrad_fill.induct)
  case (1 pid n x totalSum i res)
  show ?case
  proof (cases "i < n")
    case True
    define v where "v = (x ! nat i - real (nat i)) * totalSum / (2 * (real (nat i) + 1)\<^sup>2)"
    have "LBFGSFuncGrad_component 0 n x totalSum i =
        Inr ((x ! nat i - real_of_int i) * totalSum / (2 * (real_of_int i + 1)\<^sup>2))"
      using "1.prems" True by (intro LBFGSFuncGrad_component_ok) simp_all
    then have c: "LBFGSFuncGrad_component pid n x totalSum i = Inr v"
      using "1.prems" by (simp add: v_def)
    have lt: "nat i < length x"
      using True "1.prems" by simp
    have asg: "assign_at res i v = Inr (res[nat i := v])"
      using "1.prems" lt by (simp add: assign_at_def)
    have nxt: "nat (i + 1) = Suc (nat i)"
      using "1.prems" by simp
    have step: "LBFGSFuncGrad_fill pid n x totalSum i res =
                LBFGSFuncGrad_fill pid n x totalSum (i + 1) (res[nat i := v])"
      using True c asg by (subst LBFGSFuncGrad_fill.simps) simp
    have "\<exists>r. LBFGSFuncGrad_fill pid n x totalSum (i + 1) (res[nat i := v]) = Inr r \<and>
            length r = length x \<and>
            (\<forall>j < length x. r ! j =
               (if j < nat (i + 1) then (res[nat i := v]) ! j
                else (x ! j - real j) * totalSum / (2 * (real j + 1)\<^sup>2)))"
      using "1.prems" True c asg by (intro "1.IH") simp_all
    then obtain r where r: "LBFGSFuncGrad_fill pid n x totalSum (i + 1) (res[nat i := v]) = Inr r"
        "length r = length x"
        "\<forall>j < length x. r ! j =
               (if j < Suc (nat i) then (res[nat i := v]) ! j
                else (x ! j - real j) * totalSum / (2 * (real j + 1)\<^sup>2))"
      unfolding nxt by blast
    have "\<forall>j < length x. r ! j =
          (if j < nat i then res ! j
           else (x ! j - real j) * totalSum / (2 * (real j + 1)\<^sup>2))"
    proof (intro allI impI)
      fix j assume j: "j < length x"
      show "r ! j = (if j < nat i then res ! j
           else (x ! j - real j) * totalSum / (2 * (real j + 1)\<^sup>2))"
      proof (cases "j = nat i")
        case True
        with r(3) j "1.prems" show ?thesis by (simp add: v_def)
      next
        case False
        with r(3) j show ?thesis by (auto simp: less_Suc_eq)
      qed
    qed
    with r(1,2) show ?thesis
      unfolding step by blast
  next
    case False
    have "LBFGSFuncGrad_fill pid n x totalSum i res = Inr res"
      using False by (subst LBFGSFuncGrad_fill.simps) simp
    moreover have "\<forall>j < length x. j < nat i"
      using False "1.prems" by auto
    ultimately show ?thesis
      using "1.prems" by simp
  qed
qed

lemma LBFGSFuncGrad_fill_overflow:
  "pid = 0 \<Longrightarrow> 0 \<le> i \<Longrightarrow> i \<le> 32767 \<Longrightarrow> n = int (length x) \<Longrightarrow> 32767 < n \<Longrightarrow>
   length res = length x \<Longrightarrow>
   LBFGSFuncGrad_fill pid n x totalSum i res = Inl SignedOverflow"
proof (induction pid n x totalSum i res rule: LBFGSFuncGrad_fill.induct)
  case (1 pid n x totalSum i res)
  have lt: "i < n" using "1.prems" by simp
  show ?case
  proof (cases "i = 32767")
    case True
    have "LBFGSFuncGrad_component pid n x totalSum i = Inl SignedOverflow"
      using "1.prems" True by (simp add: LBFGSFuncGrad_component_overflow)
    then show ?thesis
      using lt by (subst LBFGSFuncGrad_fill.simps) simp
  next
    case False
    have "LBFGSFuncGrad_component 0 n x totalSum i =
        Inr ((x ! nat i - real_of_int i) * totalSum / (2 * (real_of_int i + 1)\<^sup>2))"
      using "1.prems" False by (intro LBFGSFuncGrad_component_ok) simp_all
    then obtain v where c: "LBFGSFuncGrad_component pid n x totalSum i = Inr v"
      using "1.prems" by simp
    have asg: "assign_at res i v = Inr (res[nat i := v])"
      using "1.prems" lt by (simp add: assign_at_def)
    have "LBFGSFuncGrad_fill pid n x totalSum (i + 1) (res[nat i := v]) = Inl SignedOverflow"
      using "1.prems" False lt c asg by (intro "1.IH") simp_all
    then show ?thesis
      using lt c asg by (subst LBFGSFuncGrad_fill.simps) simp
  qed
qed

lemma resize_length: "0 \<le> n \<Longrightarrow> \<exists>r. resize res n = Inr r \<and> int (length r) = n"
  by (auto simp: resize_def)

subsection \<open>The test program against the analytic functions\<close>

lemma half_weighted_squares:
  "(\<Sum>j = 0 ..< length x. (x ! j - real j)\<^sup>2 / (2 * (real j + 1)\<^sup>2)) = weighted_squares x / 2"
  unfolding weighted_squares_def atLeast0LessThan
  by (simp add: sum_divide_distrib ac_simps)

lemma LBFGSFunc_evaluate_ok:
  assumes "int (length x) = n" "n \<le> 32767"
  shows "LBFGSFunc_evaluate checks_on 0 n x = Inr (analytic_objective x)"
proof -
  have "LBFGSFunc_loop 0 n x 0 0 =
          Inr (0 + (\<Sum>j = nat 0 ..< length x. (x ! j - real j)\<^sup>2 / (2 * (real j + 1)\<^sup>2)))"
    using assms by (intro LBFGSFunc_loop_ok) simp_all
  then have loop: "LBFGSFunc_loop 0 n x 0 0 = Inr (weighted_squares x / 2)"
    by (simp add: half_weighted_squares)
  have alg: "weighted_squares x / 2 * (weighted_squares x / 2) / 2 = (weighted_squares x)\<^sup>2 / 8"
    by (simp add: power2_eq_square)
  show ?thesis
    unfolding LBFGSFunc_evaluate_def loop analytic_objective_def
    using assms(1) alg by (simp add: check_def)
qed

lemma LBFGSFuncGrad_evaluate_ok:
  assumes "int (length x) = n" "n \<le> 32767"
  shows "LBFGSFuncGrad_evaluate checks_on 0 n x res = Inr (map (analytic_gradient x) [0 ..< length x])"
proof -
  have n0: "0 \<le> n" using assms by simp
  obtain res1 where res1: "resize res n = Inr res1" "int (length res1) = n"
    using resize_length [OF n0] by blast
  have "LBFGSFuncGrad_sum 0 n x 0 0 =
          Inr (0 + (\<Sum>j = nat 0 ..< length x. (x ! j - real j)\<^sup>2 / (real j + 1)\<^sup>2))"
    using assms by (intro LBFGSFuncGrad_sum_ok) simp_all
  then have sum: "LBFGSFuncGrad_sum 0 n x 0 0 = Inr (weighted_squares x)"
    by (simp add: weighted_squares_def atLeast0LessThan)
  have len: "length res1 = length x"
    using res1(2) assms(1) by simp
  obtain r where r: "LBFGSFuncGrad_fill 0 n x (weighted_squares x) 0 res1 = Inr r"
      "length r = length x"
      "\<forall>j < length x. r ! j =
          (if j < nat 0 then res1 ! j
           else (x ! j - real j) * weighted_squares x / (2 * (real j + 1)\<^sup>2))"
    using LBFGSFuncGrad_fill_ok [of 0 0 n x res1 "weighted_squares x"] assms len by auto
  have "r = map (analytic_gradient x) [0 ..< length x]"
    using r(2,3) by (intro nth_equalityI) (simp_all add: analytic_gradient_def)
  with r(1) show ?thesis
    unfolding LBFGSFuncGrad_evaluate_def res1(1) sum
    using assms(1) by (simp add: check_def)
qed

lemma weighted_squares_update:
  assumes "i < length x"
  shows "weighted_squares (x[i := t]) =
           (\<Sum>j \<in> {..<length x} - {i}. (x ! j - real j)\<^sup>2 / (real j + 1)\<^sup>2) +
           (t - real i)\<^sup>2 / (real i + 1)\<^sup>2"
proof -
  have "weighted_squares (x[i := t]) =
          (\<Sum>j < length x. (x[i := t] ! j - real j)\<^sup>2 / (real j + 1)\<^sup>2)"
    by (simp add: weighted_squares_def)
  also have "\<dots> = (x[i := t] ! i - real i)\<^sup>2 / (real i + 1)\<^sup>2 +
          (\<Sum>j \<in> {..<length x} - {i}. (x[i := t] ! j - real j)\<^sup>2 / (real j + 1)\<^sup>2)"
    using assms by (intro sum.remove) simp_all
  also have "(\<Sum>j \<in> {..<length x} - {i}. (x[i := t] ! j - real j)\<^sup>2 / (real j + 1)\<^sup>2) =
             (\<Sum>j \<in> {..<length x} - {i}. (x ! j - real j)\<^sup>2 / (real j + 1)\<^sup>2)"
    by (intro sum.cong) simp_all
  finally show ?thesis
    using assms by simp
qed

lemma analytic_gradient_is_derivative:
  assumes "i < length x"
  shows "((\<lambda>t. analytic_objective (x[i := t])) has_real_derivative analytic_gradient x i)
           (at (x ! i))"
proof -
  define c where "c = (\<Sum>j \<in> {..<length x} - {i}. (x ! j - real j)\<^sup>2 / (real j + 1)\<^sup>2)"
  define w where "w = (real i + 1)\<^sup>2"
  define a where "a = x ! i - real i"
  define v where "v = c + a\<^sup>2 / w"
  have w: "w \<noteq> 0" unfolding w_def by simp
  have fn: "(\<lambda>t. analytic_objective (x[i := t])) = (\<lambda>t. (c + (t - real i)\<^sup>2 / w)\<^sup>2 / 8)"
    using assms by (simp add: analytic_objective_def weighted_squares_update c_def w_def)
  have here: "weighted_squares x = v"
    using weighted_squares_update [OF assms, of "x ! i"] by (simp add: c_def w_def v_def a_def)
  have d1: "((\<lambda>t. (t - real i)\<^sup>2) has_real_derivative 2 * a) (at (x ! i))"
    unfolding a_def by (auto intro!: derivative_eq_intros)
  have d2: "((\<lambda>t. c + (t - real i)\<^sup>2 / w) has_real_derivative 2 * a / w) (at (x ! i))"
    using DERIV_add [OF DERIV_const [of c] DERIV_cdivide [OF d1, of w]] by simp
  have d3: "((\<lambda>t. (c + (t - real i)\<^sup>2 / w)\<^sup>2) has_real_derivative 2 * (2 * a / w * v))
              (at (x ! i))"
    using DERIV_power [OF d2, of 2] by (simp add: v_def a_def)
  have d4: "((\<lambda>t. (c + (t - real i)\<^sup>2 / w)\<^sup>2 / 8) has_real_derivative 2 * (2 * a / w * v) / 8)
              (at (x ! i))"
    by (rule DERIV_cdivide [OF d3])
  have "2 * (2 * a / w * v) / 8 = a * v / (2 * w)"
    by simp
  also have "\<dots> = analytic_gradient x i"
    unfolding analytic_gradient_def here a_def w_def ..
  finally show ?thesis
    using d4 unfolding fn by simp
qed

lemma LBFGSFunc_evaluate_overflow:
  assumes "int (length x) = n" "32767 < n"
  shows "LBFGSFunc_evaluate checks_on 0 n x = Inl SignedOverflow"
proof -
  have "LBFGSFunc_loop 0 n x 0 0 = Inl SignedOverflow"
    using assms by (intro LBFGSFunc_loop_overflow) simp_all
  then show ?thesis
    unfolding LBFGSFunc_evaluate_def using assms(1) by (simp add: check_def)
qed

lemma LBFGSFuncGrad_evaluate_overflow:
  assumes "int (length x) = n" "32767 < n" "n \<le> 46340"
  shows "LBFGSFuncGrad_evaluate checks_on 0 n x res = Inl SignedOverflow"
proof -
  have n0: "0 \<le> n" using assms by simp
  obtain res1 where res1: "resize res n = Inr res1" "int (length res1) = n"
    using resize_length [OF n0] by blast
  have sum: "LBFGSFuncGrad_sum 0 n x 0 0 =
          Inr (0 + (\<Sum>j = nat 0 ..< length x. (x ! j - real j)\<^sup>2 / (real j + 1)\<^sup>2))"
    using assms by (intro LBFGSFuncGrad_sum_ok) simp_all
  have len: "length res1 = length x"
    using res1(2) assms(1) by simp
  have "LBFGSFuncGrad_fill 0 n x totalSum 0 res1 = Inl SignedOverflow" for totalSum
    using assms len by (intro LBFGSFuncGrad_fill_overflow) simp_all
  then show ?thesis
    unfolding LBFGSFuncGrad_evaluate_def res1(1) sum
    using assms(1) by (simp add: check_def)
qed

subsection \<open>Runs of the history buffer\<close>

lemma run_history_total:
  "\<forall>st \<in> set sts. well_shaped n st \<Longrightarrow> \<exists>H. run_history eps m sts h = Inr H"
proof (induction sts arbitrary: h)
  case Nil
  then show ?case by simp
next
  case (Cons st sts)
  from Cons.prems have ws: "well_shaped n st" and rest: "\<forall>st \<in> set sts. well_shaped n st"
    by simp_all
  from update_history_accepted [OF ws, of eps m h]
  obtain h1 where "update_history eps m st h = Inr h1" by blast
  with Cons.IH [OF rest, of h1] show ?case by simp
qed

lemma update_history_rejects:
  assumes "dotProduct (difference (x_new st) (x_old st)) (difference (g_new st) (g_old st)) = Inr sy"
    and "sy \<le> eps"
  shows "update_history eps m st h = Inr h"
  using assms by (simp add: update_history_def Let_def)

lemma curvature_aboveD:
  "curvature_above eps e \<Longrightarrow> \<exists>sy. dotProduct (s_k e) (y_k e) = Inr sy \<and> eps < sy"
  by (cases "dotProduct (s_k e) (y_k e)") (simp_all add: curvature_above_def)

section \<open>The claims\<close>

text \<open>
  Claim C1. If the starting point handed to the constructor of \<^verbatim>\<open>LBFGS\<close> or to
  \<^verbatim>\<open>setStarting\<close> has a size other than the dimension \<open>n\<close> the factory was configured
  with, the dimension error is raised: the constructor fails with it and builds no
  object, and \<^verbatim>\<open>setStarting\<close> on a built object fails with it. \<^verbatim>\<open>minimize\<close> takes no
  starting point of its own; an object it can be called on was built from a starting
  point of dimension \<open>n\<close> and has made no iteration. The wrapper copies the starting
  point into \<^verbatim>\<open>*s_\<close> unchecked; the check is the engine's, as the specification
  describes it.
\<close>

theorem starting_point_dimension_checked:
  assumes "0 \<le> n" and "int (length starting) \<noteq> n"
  shows "LBFGS_new checks_on n f grad starting m h = Inl DimensionMismatch \<and>
         (\<forall>start0 L h'. LBFGS_new checks_on n f grad start0 m h = Inr (L, h') \<longrightarrow>
            int (length start0) = n \<and> iteration (lbfgs_mem L) = 0 \<and>
            LBFGS_setStarting f grad L starting h' = Inl DimensionMismatch)"
proof (intro conjI allI impI)
  show "LBFGS_new checks_on n f grad starting m h = Inl DimensionMismatch"
    using assms by (rule LBFGS_new_mismatch)
next
  fix start0 L h'
  assume ok: "LBFGS_new checks_on n f grad start0 m h = Inr (L, h')"
  note built = LBFGS_new_Inr [OF ok]
  from built show "int (length start0) = n" by simp
  from built show "iteration (lbfgs_mem L) = 0" by simp
  from built assms show "LBFGS_setStarting f grad L starting h' = Inl DimensionMismatch"
    by (intro LBFGS_setStarting_mismatch [of h' L start0]) simp_all
qed

theorem starting_point_dimension_checked_witness:
  "(0::int) \<le> 1 \<and> int (length [1, 2::real]) \<noteq> 1 \<and>
   LBFGS_new True 1 (LBFGSFunc_evaluate True 0 1) (LBFGSFuncGrad_evaluate True 0 1) [1, 2] 10 [] =
     Inl DimensionMismatch \<and>
   (\<exists>L h'. LBFGS_new True 1 (LBFGSFunc_evaluate True 0 1) (LBFGSFuncGrad_evaluate True 0 1)
              [1000] 10 [] = Inr (L, h') \<and>
            lookup h' (s_mem L) = Some [1000] \<and>
            iteration (lbfgs_mem L) = 0 \<and>
            LBFGS_setStarting (LBFGSFunc_evaluate True 0 1) (LBFGSFuncGrad_evaluate True 0 1)
              L [1, 2] h' = Inl DimensionMismatch)"
proof -
  let ?f = "LBFGSFunc_evaluate True 0 1" and ?g = "LBFGSFuncGrad_evaluate True 0 1"
  let ?st = "\<lparr>x_cur = [1000], g_cur = map (analytic_gradient [1000]) [0 ..< length [1000::real]],
              f_cur = analytic_objective [1000], iteration = 0, step_length = 1,
              history = [], memory_depth = 10\<rparr>"
  let ?L = "\<lparr>factory_mem = \<lparr>n_mem = 1\<rparr>, f_mem = \<lparr>x_mem = [1000]\<rparr>, s_mem = 0, lbfgs_mem = ?st\<rparr>"
  have h1: "(0::int) \<le> 1" by simp
  have h2: "int (length [1, 2::real]) \<noteq> 1" by simp
  have fv: "?f [1000] = Inr (analytic_objective [1000])"
    by (intro LBFGSFunc_evaluate_ok) simp_all
  have gv: "?g [1000] [0] = Inr (map (analytic_gradient [1000]) [0 ..< length [1000::real]])"
    by (intro LBFGSFuncGrad_evaluate_ok) simp_all
  have eng: "LBFGS_General_new \<lparr>n_mem = 1\<rparr> ?f ?g BasicLBFGSFunc_new [1000] 10 =
               Inr (?st, \<lparr>x_mem = [1000]\<rparr>)"
    unfolding LBFGS_General_new_def LBFGS_General_setStarting_def
    using fv gv by (simp add: BasicLargeVector_def BasicLBFGSFunc_new_def)
  have built: "LBFGS_new True 1 ?f ?g [1000] 10 [] = Inr (?L, [Some [1000]])"
    unfolding LBFGS_new_def
    using eng
    by (simp add: BasicLargeVectorFactory_new_def check_def giveMeOne_def BasicLargeVector_def
          alloc_def assign_contents_def dereference_def lookup_def store_def)
  note inst = starting_point_dimension_checked [OF h1 h2, of True ?f ?g 10 "[]"]
  from inst have c1: "LBFGS_new True 1 ?f ?g [1, 2] 10 [] = Inl DimensionMismatch"
    by blast
  from inst built have c2: "LBFGS_setStarting ?f ?g ?L [1, 2] [Some [1000]] = Inl DimensionMismatch"
    by blast
  have c3: "lookup [Some [1000]] (s_mem ?L) = Some [1000]"
    by (simp add: lookup_def)
  have c4: "iteration (lbfgs_mem ?L) = 0" by simp
  from h1 h2 c1 built c2 c3 c4 show ?thesis by blast
qed

text \<open>
  Claim C2. For a memory depth \<open>m > 0\<close> and every run (every list of accepted steps, so
  every number of iterations), the history buffer holds at most \<open>m\<close> entries; it holds
  the last \<open>m\<close> of the entries that passed the curvature test, in the order of the
  iterations; and an insertion into a full buffer removes the first, oldest entry and
  appends the new one.
\<close>

theorem history_bounded_and_chronological:
  assumes "0 < m" and "\<forall>st \<in> set sts. well_shaped n st"
  shows "(\<exists>H. run_history eps m sts [] = Inr H \<and>
              length H \<le> m \<and>
              H = drop (length (accepted eps sts) - m) (accepted eps sts)) \<and>
         (\<forall>e h. length h = m \<longrightarrow> insert_entry m e h = tl h @ [e])"
proof -
  have "run_history eps m sts [] = Inr (last_entries m ([] @ accepted eps sts))"
    using assms by (intro run_history_last [of m "[]" sts n eps]) simp_all
  then have run: "run_history eps m sts [] = Inr (last_entries m (accepted eps sts))"
    by simp
  have len: "length (last_entries m (accepted eps sts)) \<le> m"
    by (rule last_entries_length)
  have shape: "last_entries m (accepted eps sts) =
                 drop (length (accepted eps sts) - m) (accepted eps sts)"
    by (simp add: last_entries_def)
  have evict: "\<forall>e h. length h = m \<longrightarrow> insert_entry m e h = tl h @ [e]"
    by (simp add: insert_entry_def)
  from run len shape evict show ?thesis by simp
qed

theorem history_bounded_and_chronological_witness:
  "(0::nat) < 1 \<and>
   well_shaped 1 \<lparr>x_old = [0], x_new = [1], g_old = [0], g_new = [2]\<rparr> \<and>
   well_shaped 1 \<lparr>x_old = [1], x_new = [2], g_old = [2], g_new = [5]\<rparr> \<and>
   accepted (1 / 2) [\<lparr>x_old = [0], x_new = [1], g_old = [0], g_new = [2]\<rparr>,
                     \<lparr>x_old = [1], x_new = [2], g_old = [2], g_new = [5]\<rparr>] =
     [\<lparr>s_k = [1], y_k = [2], rho_k = 1 / 2\<rparr>, \<lparr>s_k = [1], y_k = [3], rho_k = 1 / 3\<rparr>] \<and>
   run_history (1 / 2) 1 [\<lparr>x_old = [0], x_new = [1], g_old = [0], g_new = [2]\<rparr>,
                          \<lparr>x_old = [1], x_new = [2], g_old = [2], g_new = [5]\<rparr>] [] =
     Inr [\<lparr>s_k = [1], y_k = [3], rho_k = 1 / 3\<rparr>] \<and>
   insert_entry 1 \<lparr>s_k = [1], y_k = [3], rho_k = 1 / 3\<rparr> [\<lparr>s_k = [1], y_k = [2], rho_k = 1 / 2\<rparr>] =
     [\<lparr>s_k = [1], y_k = [3], rho_k = 1 / 3\<rparr>]"
proof -
  let ?sts = "[\<lparr>x_old = [0], x_new = [1], g_old = [0], g_new = [2]\<rparr>,
               \<lparr>x_old = [1], x_new = [2], g_old = [2], g_new = [5::real]\<rparr>]"
  have h1: "(0::nat) < 1" by simp
  have h2: "\<forall>st \<in> set ?sts. well_shaped 1 st"
    by (simp add: well_shaped_def)
  have acc: "accepted (1 / 2) ?sts =
     [\<lparr>s_k = [1], y_k = [2], rho_k = 1 / 2\<rparr>, \<lparr>s_k = [1], y_k = [3], rho_k = 1 / 3\<rparr>]"
    by (simp add: accepted_def List.map_filter_simps accepted_entry_def difference_def dotProduct_def)
  note inst = history_bounded_and_chronological [OF h1 h2, of "1 / 2"]
  from inst have run: "run_history (1 / 2) 1 ?sts [] =
     Inr [\<lparr>s_k = [1], y_k = [3], rho_k = 1 / 3\<rparr>]"
    unfolding acc by simp
  from inst have "insert_entry 1 \<lparr>s_k = [1], y_k = [3], rho_k = 1 / 3\<rparr>
                    [\<lparr>s_k = [1], y_k = [2], rho_k = 1 / 2\<rparr>] =
                  tl [\<lparr>s_k = [1], y_k = [2], rho_k = 1 / 2\<rparr>] @ [\<lparr>s_k = [1], y_k = [3], rho_k = 1 / 3\<rparr>]"
    by simp
  then have ins: "insert_entry 1 \<lparr>s_k = [1], y_k = [3], rho_k = 1 / 3\<rparr>
                    [\<lparr>s_k = [1], y_k = [2], rho_k = 1 / 2\<rparr>] =
                  [\<lparr>s_k = [1], y_k = [3], rho_k = 1 / 3\<rparr>]"
    by simp
  have w1: "well_shaped 1 \<lparr>x_old = [0], x_new = [1], g_old = [0], g_new = [2]\<rparr>"
    by (simp add: well_shaped_def)
  have w2: "well_shaped 1 \<lparr>x_old = [1], x_new = [2], g_old = [2], g_new = [5]\<rparr>"
    by (simp add: well_shaped_def)
  from h1 w1 w2 acc run ins show ?thesis by blast
qed

text \<open>
  Claim C3. With a positive curvature threshold \<open>\<epsilon>\<close>, every entry of the history buffer
  after any run has a curvature product \<open>s \<cdot> y\<close> above \<open>\<epsilon>\<close>, hence positive; and a
  candidate pair whose product is non-positive, or at most \<open>\<epsilon>\<close>, leaves the buffer as
  it was: it is not inserted and the length does not grow.
\<close>

theorem rejected_curvature_never_stored:
  assumes "0 < eps" and "\<forall>st \<in> set sts. well_shaped n st"
  shows "(\<exists>H. run_history eps m sts [] = Inr H \<and>
              (\<forall>e \<in> set H. \<exists>sy. dotProduct (s_k e) (y_k e) = Inr sy \<and> eps < sy \<and> 0 < sy)) \<and>
         (\<forall>st h sy.
            dotProduct (difference (x_new st) (x_old st)) (difference (g_new st) (g_old st)) = Inr sy \<and>
            (sy \<le> 0 \<or> sy \<le> eps) \<longrightarrow>
            update_history eps m st h = Inr h)"
proof (intro conjI allI impI)
  obtain H where H: "run_history eps m sts [] = Inr H"
    using run_history_total [OF assms(2), of eps m "[]"] by blast
  have "\<forall>e \<in> set H. curvature_above eps e"
    using run_history_keeps [OF H] by simp
  then have "\<forall>e \<in> set H. \<exists>sy. dotProduct (s_k e) (y_k e) = Inr sy \<and> eps < sy \<and> 0 < sy"
    using assms(1) by (fastforce dest: curvature_aboveD)
  with H show "\<exists>H. run_history eps m sts [] = Inr H \<and>
              (\<forall>e \<in> set H. \<exists>sy. dotProduct (s_k e) (y_k e) = Inr sy \<and> eps < sy \<and> 0 < sy)"
    by blast
next
  fix st :: step and h :: "entry list" and sy :: double
  assume a: "dotProduct (difference (x_new st) (x_old st)) (difference (g_new st) (g_old st)) = Inr sy \<and>
            (sy \<le> 0 \<or> sy \<le> eps)"
  then have "sy \<le> eps" using assms(1) by auto
  with a show "update_history eps m st h = Inr h"
    by (intro update_history_rejects [of st sy]) simp_all
qed

theorem rejected_curvature_never_stored_witness:
  "(0::real) < 1 / 2 \<and>
   well_shaped 1 \<lparr>x_old = [0], x_new = [1], g_old = [0], g_new = [2]\<rparr> \<and>
   well_shaped 1 \<lparr>x_old = [1], x_new = [2], g_old = [2], g_new = [1]\<rparr> \<and>
   dotProduct (difference [2] [1]) (difference [1] [2]) = Inr (- 1) \<and>
   update_history (1 / 2) 3 \<lparr>x_old = [1], x_new = [2], g_old = [2], g_new = [1]\<rparr>
      [\<lparr>s_k = [1], y_k = [2], rho_k = 1 / 2\<rparr>] = Inr [\<lparr>s_k = [1], y_k = [2], rho_k = 1 / 2\<rparr>] \<and>
   (\<exists>H. run_history (1 / 2) 3 [\<lparr>x_old = [0], x_new = [1], g_old = [0], g_new = [2]\<rparr>,
                 \<lparr>x_old = [1], x_new = [2], g_old = [2], g_new = [1]\<rparr>] [] = Inr H \<and>
        (\<forall>e \<in> set H. \<exists>sy. dotProduct (s_k e) (y_k e) = Inr sy \<and> 1 / 2 < sy \<and> 0 < sy))"
proof -
  let ?sts = "[\<lparr>x_old = [0], x_new = [1], g_old = [0], g_new = [2]\<rparr>,
               \<lparr>x_old = [1], x_new = [2], g_old = [2], g_new = [1::real]\<rparr>]"
  let ?st = "\<lparr>x_old = [1], x_new = [2], g_old = [2], g_new = [1::real]\<rparr>"
  have h1: "(0::real) < 1 / 2" by simp
  have h2: "\<forall>st \<in> set ?sts. well_shaped 1 st"
    by (simp add: well_shaped_def)
  have d: "dotProduct (difference [2] [1]) (difference [1] [2]) = Inr (- 1)"
    by (simp add: difference_def dotProduct_def)
  note inst = rejected_curvature_never_stored [OF h1 h2, of 3]
  have "dotProduct (difference (x_new ?st) (x_old ?st)) (difference (g_new ?st) (g_old ?st)) = Inr (- 1) \<and>
        ((- 1::real) \<le> 0 \<or> (- 1::real) \<le> 1 / 2)"
    using d by simp
  with inst have rej: "update_history (1 / 2) 3 ?st [\<lparr>s_k = [1], y_k = [2], rho_k = 1 / 2\<rparr>] =
      Inr [\<lparr>s_k = [1], y_k = [2], rho_k = 1 / 2\<rparr>]"
    by blast
  from inst have run: "\<exists>H. run_history (1 / 2) 3 ?sts [] = Inr H \<and>
        (\<forall>e \<in> set H. \<exists>sy. dotProduct (s_k e) (y_k e) = Inr sy \<and> 1 / 2 < sy \<and> 0 < sy)"
    by blast
  have w1: "well_shaped 1 \<lparr>x_old = [0], x_new = [1], g_old = [0], g_new = [2]\<rparr>"
    by (simp add: well_shaped_def)
  have w2: "well_shaped 1 \<lparr>x_old = [1], x_new = [2], g_old = [2], g_new = [1]\<rparr>"
    by (simp add: well_shaped_def)
  from h1 w1 w2 d rej run show ?thesis by blast
qed



text \<open>
  Claim C5, as stated, fails: \<^verbatim>\<open>BasicLBFGSFunc\<close> has no cache. After one \<^verbatim>\<open>set\<close> at the
  point \<open>[1]\<close>, two \<^verbatim>\<open>value()\<close> requests call the external objective twice at \<open>[1]\<close>.
\<close>

theorem value_twice_evaluates_twice:
  "BasicLBFGSFunc_set [Some [1]] 0 BasicLBFGSFunc_new = Inr \<lparr>x_mem = [1]\<rparr> \<and>
   count_list
     (snd (BasicLBFGSFunc_value (LBFGSFunc_evaluate True 0 1) \<lparr>x_mem = [1]\<rparr>
        (snd (BasicLBFGSFunc_value (LBFGSFunc_evaluate True 0 1) \<lparr>x_mem = [1]\<rparr> []))))
     (EvalF [1]) = 2"
  by (simp add: BasicLBFGSFunc_set_def BasicLBFGSFunc_new_def lookup_def BasicLBFGSFunc_value_def)

text \<open>
  Claim C5, amended. \<^verbatim>\<open>set(x)\<close> stores the contents of \<open>x\<close> as the evaluation point.
  Nothing is cached: every \<^verbatim>\<open>value()\<close> request calls the external objective once at
  the bound point and every \<^verbatim>\<open>derivative()\<close> request (into a live vector) calls the
  external gradient once at the bound point, so the log of external calls grows by one
  call per request, in the order of the requests.
\<close>

theorem BasicLBFGSFunc_evaluates_on_every_request:
  assumes "BasicLBFGSFunc_set h0 a F0 = Inr F"
    and "\<forall>r \<in> set rs. buffer_live h r"
  shows "lookup h0 a = Some (x_mem F) \<and>
         snd (snd (serve f grad F rs h tr)) = tr @ map (call_of (x_mem F)) rs"
  using set_binds [OF assms(1)] serve_trace [OF assms(2)] by simp

theorem BasicLBFGSFunc_evaluates_on_every_request_witness:
  "BasicLBFGSFunc_set [Some [1]] 0 BasicLBFGSFunc_new = Inr \<lparr>x_mem = [1]\<rparr> \<and>
   buffer_live [Some [1]] Value \<and> buffer_live [Some [1]] (Derivative 0) \<and>
   snd (snd (serve (LBFGSFunc_evaluate True 0 1) (LBFGSFuncGrad_evaluate True 0 1)
               \<lparr>x_mem = [1]\<rparr> [Value, Value, Derivative 0, Derivative 0] [Some [1]] []))
     = [EvalF [1], EvalF [1], EvalGrad [1], EvalGrad [1]]"
proof -
  have h1: "BasicLBFGSFunc_set [Some [1]] 0 BasicLBFGSFunc_new = Inr \<lparr>x_mem = [1]\<rparr>"
    by (simp add: BasicLBFGSFunc_set_def BasicLBFGSFunc_new_def lookup_def)
  have h2: "\<forall>r \<in> set [Value, Value, Derivative 0, Derivative 0]. buffer_live [Some [1]] r"
    by (simp add: lookup_def)
  have b1: "buffer_live [Some [1]] Value" by simp
  have b2: "buffer_live [Some [1]] (Derivative 0)" by (simp add: lookup_def)
  from BasicLBFGSFunc_evaluates_on_every_request [OF h1 h2,
      of "LBFGSFunc_evaluate True 0 1" "LBFGSFuncGrad_evaluate True 0 1" "[]"]
  have "snd (snd (serve (LBFGSFunc_evaluate True 0 1) (LBFGSFuncGrad_evaluate True 0 1)
               \<lparr>x_mem = [1]\<rparr> [Value, Value, Derivative 0, Derivative 0] [Some [1]] []))
     = [EvalF [1], EvalF [1], EvalGrad [1], EvalGrad [1]]"
    by simp
  with h1 b1 b2 show ?thesis by blast
qed

text \<open>
  Claim C6. After one \<^verbatim>\<open>set(x)\<close>, two \<^verbatim>\<open>value()\<close> calls return the same result, the
  objective at \<open>x\<close>. In any sequence of \<^verbatim>\<open>value()\<close> and \<^verbatim>\<open>derivative()\<close> requests, in any
  order and of any length, every value reply is the objective at \<open>x\<close> and every
  derivative reply is the gradient at \<open>x\<close>, applied to the vector it was given (or the
  failure of a dead vector): a reply depends on the bound point, never on the requests
  before it.
\<close>

theorem BasicLBFGSFunc_requests_idempotent:
  assumes "BasicLBFGSFunc_set h0 a F0 = Inr F" and "lookup h0 a = Some x"
  shows "fst (BasicLBFGSFunc_value f F tr1) = f x \<and>
         fst (BasicLBFGSFunc_value f F tr2) = f x \<and>
         (\<forall>h res tr. fst (BasicLBFGSFunc_derivative grad F h res tr) =
            (case lookup h res of None \<Rightarrow> Inl InvalidPointer | Some b \<Rightarrow> grad x b)) \<and>
         (\<forall>rs h tr. length (fst (serve f grad F rs h tr)) = length rs \<and>
            (\<forall>i < length rs.
               (rs ! i = Value \<longrightarrow> fst (serve f grad F rs h tr) ! i = ValueIs (f x)) \<and>
               (\<forall>res. rs ! i = Derivative res \<longrightarrow>
                  fst (serve f grad F rs h tr) ! i = DerivativeIs (Inl InvalidPointer) \<or>
                  (\<exists>b. fst (serve f grad F rs h tr) ! i = DerivativeIs (grad x b)))))"
proof -
  have x: "x_mem F = x"
    using set_binds [OF assms(1)] assms(2) by simp
  show ?thesis
    using serve_replies [of _ _ f grad F] serve_length [of f grad F]
      derivative_outcome [of grad F]
    unfolding x by (simp add: BasicLBFGSFunc_value_def x)
qed

theorem BasicLBFGSFunc_requests_idempotent_witness:
  "BasicLBFGSFunc_set [Some [1]] 0 BasicLBFGSFunc_new = Inr \<lparr>x_mem = [1]\<rparr> \<and>
   lookup [Some [1]] 0 = Some [1] \<and>
   fst (BasicLBFGSFunc_value (LBFGSFunc_evaluate True 0 1) \<lparr>x_mem = [1]\<rparr> []) =
     LBFGSFunc_evaluate True 0 1 [1] \<and>
   fst (BasicLBFGSFunc_value (LBFGSFunc_evaluate True 0 1) \<lparr>x_mem = [1]\<rparr> [EvalF [1]]) =
     LBFGSFunc_evaluate True 0 1 [1] \<and>
   fst (serve (LBFGSFunc_evaluate True 0 1) (LBFGSFuncGrad_evaluate True 0 1)
          \<lparr>x_mem = [1]\<rparr> [Derivative 0, Value, Value] [Some [5]] []) ! 2 =
     ValueIs (LBFGSFunc_evaluate True 0 1 [1])"
proof -
  have h1: "BasicLBFGSFunc_set [Some [1]] 0 BasicLBFGSFunc_new = Inr \<lparr>x_mem = [1]\<rparr>"
    by (simp add: BasicLBFGSFunc_set_def BasicLBFGSFunc_new_def lookup_def)
  have h2: "lookup [Some [1]] 0 = Some [1]"
    by (simp add: lookup_def)
  note inst = BasicLBFGSFunc_requests_idempotent [OF h1 h2,
      of "LBFGSFunc_evaluate True 0 1" "[]" "[EvalF [1]]" "LBFGSFuncGrad_evaluate True 0 1"]
  from inst have v1: "fst (BasicLBFGSFunc_value (LBFGSFunc_evaluate True 0 1) \<lparr>x_mem = [1]\<rparr> []) =
     LBFGSFunc_evaluate True 0 1 [1]" by blast
  from inst have v2: "fst (BasicLBFGSFunc_value (LBFGSFunc_evaluate True 0 1) \<lparr>x_mem = [1]\<rparr> [EvalF [1]]) =
     LBFGSFunc_evaluate True 0 1 [1]" by blast
  from inst have "\<forall>i < length [Derivative 0, Value, Value].
      [Derivative 0, Value, Value] ! i = Value \<longrightarrow>
      fst (serve (LBFGSFunc_evaluate True 0 1) (LBFGSFuncGrad_evaluate True 0 1)
          \<lparr>x_mem = [1]\<rparr> [Derivative 0, Value, Value] [Some [5]] []) ! i =
     ValueIs (LBFGSFunc_evaluate True 0 1 [1])" by blast
  then have v3: "fst (serve (LBFGSFunc_evaluate True 0 1) (LBFGSFuncGrad_evaluate True 0 1)
          \<lparr>x_mem = [1]\<rparr> [Derivative 0, Value, Value] [Some [5]] []) ! 2 =
     ValueIs (LBFGSFunc_evaluate True 0 1 [1])"
    by (simp del: serve.simps)
  from h1 h2 v1 v2 v3 show ?thesis by blast
qed

text \<open>
  Claim C7. For every configured dimension \<open>n \<ge> 0\<close> the factory can be built, and
  \<^verbatim>\<open>giveMeOne\<close> returns a new vector (an address that was not live before, every other
  object untouched) whose dimension is \<open>n\<close> and whose elements are all zero.
\<close>

theorem giveMeOne_zero_vector:
  assumes "0 \<le> n"
  shows "\<exists>fac a h' v.
           BasicLargeVectorFactory_new checks_on n = Inr fac \<and>
           giveMeOne fac h = Inr (a, h') \<and>
           lookup h a = None \<and>
           lookup h' a = Some v \<and>
           int (length v) = n \<and>
           (\<forall>i < length v. v ! i = 0) \<and>
           (\<forall>b. b \<noteq> a \<longrightarrow> lookup h' b = lookup h b)"
proof -
  let ?fac = "\<lparr>n_mem = n\<rparr>"
  let ?v = "replicate (nat n) (0::double)"
  have built: "BasicLargeVectorFactory_new checks_on n = Inr ?fac"
    using assms by (simp add: BasicLargeVectorFactory_new_def check_def)
  have made: "giveMeOne ?fac h = Inr (fst (alloc h ?v), snd (alloc h ?v))"
    using assms by (simp add: giveMeOne_def BasicLargeVector_def)
  have dim: "int (length ?v) = n"
    using assms by simp
  have zero: "\<forall>i < length ?v. ?v ! i = 0"
    by simp
  from built made dim zero show ?thesis
    using lookup_alloc_new [of h ?v] lookup_alloc_fresh [of h ?v] lookup_alloc_other [of _ h ?v]
    by blast
qed

theorem giveMeOne_zero_vector_witness:
  "(0::int) \<le> 3 \<and>
   BasicLargeVectorFactory_new True 3 = Inr \<lparr>n_mem = 3\<rparr> \<and>
   giveMeOne \<lparr>n_mem = 3\<rparr> [Some [7]] = Inr (1, [Some [7], Some [0, 0, 0]]) \<and>
   (\<exists>fac a h' v.
           BasicLargeVectorFactory_new True 3 = Inr fac \<and>
           giveMeOne fac [Some [7]] = Inr (a, h') \<and>
           lookup [Some [7]] a = None \<and>
           lookup h' a = Some v \<and>
           int (length v) = 3 \<and>
           (\<forall>i < length v. v ! i = 0) \<and>
           (\<forall>b. b \<noteq> a \<longrightarrow> lookup h' b = lookup [Some [7]] b))"
proof -
  have h: "(0::int) \<le> 3" by simp
  have e1: "BasicLargeVectorFactory_new True 3 = Inr \<lparr>n_mem = 3\<rparr>"
    by (simp add: BasicLargeVectorFactory_new_def check_def)
  have e2: "giveMeOne \<lparr>n_mem = 3\<rparr> [Some [7]] = Inr (1, [Some [7], Some [0, 0, 0]])"
    by (simp add: giveMeOne_def BasicLargeVector_def alloc_def numeral_3_eq_3)
  from h e1 e2 giveMeOne_zero_vector [OF h, of True "[Some [7]]"] show ?thesis
    by blast
qed

text \<open>
  While the \<^verbatim>\<open>int\<close> divisors stay in range the test program computes what it is
  meant to. For dimensions up to
  \<open>32767\<close> the objective of the test program is \<open>S(x)\<^sup>2 / 8\<close>, its gradient function
  returns \<open>(x\<^sub>i - i) \<cdot> S(x) / (2 (i + 1)\<^sup>2)\<close> in component \<open>i\<close>, and that is the partial
  derivative of the objective.
\<close>

lemma test_gradient_analytic_below_overflow:
  assumes "int (length x) = n" and "n \<le> 32767"
  shows "LBFGSFunc_evaluate checks_on 0 n x = Inr (analytic_objective x) \<and>
         LBFGSFuncGrad_evaluate checks_on 0 n x res =
           Inr (map (analytic_gradient x) [0 ..< length x]) \<and>
         (\<forall>i < length x.
            ((\<lambda>t. analytic_objective (x[i := t])) has_real_derivative analytic_gradient x i)
              (at (x ! i)))"
  using LBFGSFunc_evaluate_ok [OF assms] LBFGSFuncGrad_evaluate_ok [OF assms]
    analytic_gradient_is_derivative [of _ x]
  by blast

text \<open>
  Claim C8 at the dimension \<open>32768\<close>, with the program's own starting point (every
  component \<open>1000\<close>): at \<open>i = 32767\<close> the divisor \<^verbatim>\<open>2 * (i + 1) * (i + 1)\<close> is
  \<open>2\<^sup>3\<^sup>1\<close>, beyond the largest \<^verbatim>\<open>int\<close>. Both the objective and the gradient function
  run into the signed overflow and compute neither \<open>S(x)\<^sup>2 / 8\<close> nor its gradient.
\<close>

theorem test_functions_overflow_at_32768:
  "LBFGSFunc_evaluate checks_on 0 32768 (replicate 32768 1000) = Inl SignedOverflow \<and>
   LBFGSFuncGrad_evaluate checks_on 0 32768 (replicate 32768 1000) res = Inl SignedOverflow"
proof
  show "LBFGSFunc_evaluate checks_on 0 32768 (replicate 32768 1000) = Inl SignedOverflow"
    by (intro LBFGSFunc_evaluate_overflow) simp_all
  show "LBFGSFuncGrad_evaluate checks_on 0 32768 (replicate 32768 1000) res = Inl SignedOverflow"
    by (intro LBFGSFuncGrad_evaluate_overflow) simp_all
qed

text \<open>
  Claim C9. \<^verbatim>\<open>set\<close> copies: two runs that call \<^verbatim>\<open>set\<close> with vectors of equal contents
  bind the same point. Whatever the stores of the two runs become afterwards (the
  caller's vector changed or destroyed in one of them), all \<^verbatim>\<open>value()\<close> results agree,
  and so do all replies to any sequence of requests whose derivative output vectors
  start with the same contents in both runs.
\<close>

theorem BasicLBFGSFunc_set_copies:
  assumes "lookup h1 a1 = Some v" and "lookup h2 a2 = Some v"
  shows "\<exists>G1 G2.
           BasicLBFGSFunc_set h1 a1 F1 = Inr G1 \<and>
           BasicLBFGSFunc_set h2 a2 F2 = Inr G2 \<and>
           x_mem G1 = v \<and> x_mem G2 = v \<and>
           (\<forall>t1 t2. fst (BasicLBFGSFunc_value f G1 t1) = fst (BasicLBFGSFunc_value f G2 t2)) \<and>
           (\<forall>k1 k2 rs t1 t2.
              (\<forall>res. Derivative res \<in> set rs \<longrightarrow> lookup k1 res = lookup k2 res) \<longrightarrow>
              fst (serve f grad G1 rs k1 t1) = fst (serve f grad G2 rs k2 t2))"
proof -
  let ?G1 = "F1\<lparr>x_mem := v\<rparr>" and ?G2 = "F2\<lparr>x_mem := v\<rparr>"
  have s1: "BasicLBFGSFunc_set h1 a1 F1 = Inr ?G1"
    using assms(1) by (simp add: BasicLBFGSFunc_set_def)
  have s2: "BasicLBFGSFunc_set h2 a2 F2 = Inr ?G2"
    using assms(2) by (simp add: BasicLBFGSFunc_set_def)
  have eq: "?G1 = ?G2" by simp
  have vals: "\<forall>t1 t2. fst (BasicLBFGSFunc_value f ?G1 t1) = fst (BasicLBFGSFunc_value f ?G2 t2)"
    by (simp add: BasicLBFGSFunc_value_def)
  have runs: "\<forall>k1 k2 rs t1 t2.
              (\<forall>res. Derivative res \<in> set rs \<longrightarrow> lookup k1 res = lookup k2 res) \<longrightarrow>
              fst (serve f grad ?G1 rs k1 t1) = fst (serve f grad ?G2 rs k2 t2)"
    unfolding eq using serve_agree [of _ _ _ f grad ?G2] by blast
  have "x_mem ?G1 = v" "x_mem ?G2 = v" by simp_all
  with s1 s2 vals runs show ?thesis by blast
qed

theorem BasicLBFGSFunc_set_copies_witness:
  "lookup [Some [1]] 0 = Some [1] \<and> lookup [Some [9], Some [1]] 1 = Some [1] \<and>
   BasicLBFGSFunc_set [Some [1]] 0 BasicLBFGSFunc_new = Inr \<lparr>x_mem = [1]\<rparr> \<and>
   BasicLBFGSFunc_set [Some [9], Some [1]] 1 BasicLBFGSFunc_new = Inr \<lparr>x_mem = [1]\<rparr> \<and>
   lookup (destroy [Some [1], None, Some [5]] 0) 2 = lookup [Some [9], Some [1], Some [5]] 2 \<and>
   fst (serve (LBFGSFunc_evaluate True 0 1) (LBFGSFuncGrad_evaluate True 0 1) \<lparr>x_mem = [1]\<rparr>
          [Value, Derivative 2, Value] (destroy [Some [1], None, Some [5]] 0) []) =
   fst (serve (LBFGSFunc_evaluate True 0 1) (LBFGSFuncGrad_evaluate True 0 1) \<lparr>x_mem = [1]\<rparr>
          [Value, Derivative 2, Value] [Some [9], Some [1], Some [5]] [])"
proof -
  let ?f = "LBFGSFunc_evaluate True 0 1" and ?g = "LBFGSFuncGrad_evaluate True 0 1"
  have h1: "lookup [Some [1]] 0 = Some [1]" by (simp add: lookup_def)
  have h2: "lookup [Some [9], Some [1]] 1 = Some [1]" by (simp add: lookup_def)
  have s1: "BasicLBFGSFunc_set [Some [1]] 0 BasicLBFGSFunc_new = Inr \<lparr>x_mem = [1]\<rparr>"
    by (simp add: BasicLBFGSFunc_set_def BasicLBFGSFunc_new_def lookup_def)
  have s2: "BasicLBFGSFunc_set [Some [9], Some [1]] 1 BasicLBFGSFunc_new = Inr \<lparr>x_mem = [1]\<rparr>"
    by (simp add: BasicLBFGSFunc_set_def BasicLBFGSFunc_new_def lookup_def)
  have bufs: "\<forall>res. Derivative res \<in> set [Value, Derivative 2, Value] \<longrightarrow>
      lookup (destroy [Some [1], None, Some [5]] 0) res = lookup [Some [9], Some [1], Some [5]] res"
    by (simp add: lookup_def destroy_def)
  from BasicLBFGSFunc_set_copies [OF h1 h2, of BasicLBFGSFunc_new BasicLBFGSFunc_new ?f ?g]
  obtain G1 G2 where G:
    "BasicLBFGSFunc_set [Some [1]] 0 BasicLBFGSFunc_new = Inr G1"
    "BasicLBFGSFunc_set [Some [9], Some [1]] 1 BasicLBFGSFunc_new = Inr G2"
    "\<forall>k1 k2 rs t1 t2.
        (\<forall>res. Derivative res \<in> set rs \<longrightarrow> lookup k1 res = lookup k2 res) \<longrightarrow>
        fst (serve ?f ?g G1 rs k1 t1) = fst (serve ?f ?g G2 rs k2 t2)"
    by blast
  from G(1) s1 have G1: "G1 = \<lparr>x_mem = [1]\<rparr>" by simp
  from G(2) s2 have G2: "G2 = \<lparr>x_mem = [1]\<rparr>" by simp
  from G(3) bufs have "fst (serve ?f ?g G1 [Value, Derivative 2, Value] (destroy [Some [1], None, Some [5]] 0) []) =
                       fst (serve ?f ?g G2 [Value, Derivative 2, Value] [Some [9], Some [1], Some [5]] [])"
    by blast
  moreover have "lookup (destroy [Some [1], None, Some [5]] 0) 2 = lookup [Some [9], Some [1], Some [5]] 2"
    by (simp add: lookup_def destroy_def)
  ultimately show ?thesis
    using h1 h2 s1 s2 unfolding G1 G2 by blast
qed

text \<open>
  Claim C10. With \<^verbatim>\<open>NULL\<close> stored in \<^verbatim>\<open>cb_\<close> the trampoline \<^verbatim>\<open>myCallBack\<close> does
  nothing, however often the engine calls it; a whole \<^verbatim>\<open>minimize\<close> with a \<^verbatim>\<open>NULL\<close>
  callback invokes no function of the caller; and whatever pointer is stored, the
  trampoline never calls through a null pointer.
\<close>

theorem null_callback_never_called:
  "myCallBack r (w\<lparr>cb_mem := None\<rparr>) = Inr (w\<lparr>cb_mem := None\<rparr>) \<and>
   run_callbacks rs (w\<lparr>cb_mem := None\<rparr>) = Inr (w\<lparr>cb_mem := None\<rparr>) \<and>
   invoked (snd (LBFGS_minimize eng L res epsilon gNormTol maxIter None w)) = invoked w \<and>
   (\<exists>w'. run_callbacks rs (w\<lparr>cb_mem := callback\<rparr>) = Inr w')"
proof (intro conjI)
  show "myCallBack r (w\<lparr>cb_mem := None\<rparr>) = Inr (w\<lparr>cb_mem := None\<rparr>)"
    by (simp add: myCallBack_def)
  show "run_callbacks rs (w\<lparr>cb_mem := None\<rparr>) = Inr (w\<lparr>cb_mem := None\<rparr>)"
    by (intro run_callbacks_null) simp
  show "invoked (snd (LBFGS_minimize eng L res epsilon gNormTol maxIter None w)) = invoked w"
    using minimize_null_world [of eng L res epsilon gNormTol maxIter w] by auto
  show "\<exists>w'. run_callbacks rs (w\<lparr>cb_mem := callback\<rparr>) = Inr w'"
    using run_callbacks_total [of rs "w\<lparr>cb_mem := callback\<rparr>"] by blast
qed

end
